theory Spec2Isabelle
  imports Complex_Main "HOL-Library.AList"
begin

section \<open>Text primitives used by the UCI parser\<close>

text \<open>
  The wrapper reads the engine's output as text lines. Lines are modelled as
  \<^typ>\<open>string\<close>; the UCI protocol is ASCII, and the model covers ASCII
  lines (Python's \<open>\d\<close> and \<open>str.split\<close> also accept non-ASCII digits and
  blanks, which no engine emits).
\<close>

text \<open>\<open>s.startswith(p)\<close>\<close>

fun startswith :: "string \<Rightarrow> string \<Rightarrow> bool" where
  "startswith s [] = True"
| "startswith [] (p # ps) = False"
| "startswith (c # cs) (p # ps) = (c = p \<and> startswith cs ps)"

text \<open>\<open>sub in s\<close>\<close>

fun contains :: "string \<Rightarrow> string \<Rightarrow> bool" where
  "contains [] sub = (sub = [])"
| "contains (c # cs) sub = (startswith (c # cs) sub \<or> contains cs sub)"

definition is_digit :: "char \<Rightarrow> bool" where
  "is_digit c = (c \<in> set ''0123456789'')"

text \<open>The value of a decimal digit: its position among the ten digits.\<close>

definition digit_val :: "char \<Rightarrow> int" where
  "digit_val c = int (length (takeWhile (\<lambda>d. d \<noteq> c) ''0123456789''))"

text \<open>\<open>int(g)\<close> for a string of decimal digits; Python's integers are unbounded.\<close>

definition int_of_digits :: "string \<Rightarrow> int" where
  "int_of_digits g = foldl (\<lambda>a c. 10 * a + digit_val c) 0 g"

text \<open>
  The characters \<open>str.isspace\<close> accepts below 128: they separate the words of
  \<open>str.split()\<close> and are removed by \<open>str.strip()\<close>.
\<close>

definition is_space :: "char \<Rightarrow> bool" where
  "is_space c =
     (c \<in> set [CHR 0x09, CHR 0x0A, CHR 0x0B, CHR 0x0C, CHR 0x0D,
                CHR 0x1C, CHR 0x1D, CHR 0x1E, CHR 0x1F, CHR 0x20])"

definition strip :: "string \<Rightarrow> string" where
  "strip s = rev (dropWhile is_space (rev (dropWhile is_space s)))"

fun split_acc :: "string \<Rightarrow> string \<Rightarrow> string list" where
  "split_acc cur [] = (if cur = [] then [] else [cur])"
| "split_acc cur (c # cs) =
     (if is_space c then (if cur = [] then split_acc [] cs else cur # split_acc [] cs)
      else split_acc (cur @ [c]) cs)"

text \<open>\<open>s.split()\<close>: the maximal runs of non-blank characters, in order.\<close>

definition split_ws :: "string \<Rightarrow> string list" where
  "split_ws s = split_acc [] s"

subsection \<open>The regular expressions of \<open>_parse_analysis\<close>\<close>

text \<open>
  Every numeric pattern of the parser is a literal followed by \<open>(\d+)\<close>, for instance
  \<open>multipv (\d+)\<close>. \<open>digits_at lit s\<close> is the match anchored at the start of
  \<open>s\<close>, already converted by \<open>int\<close>; \<open>search_digits\<close> is \<open>re.search\<close>: the
  leftmost position with a match, \<open>None\<close> when there is none.
\<close>

definition digits_at :: "string \<Rightarrow> string \<Rightarrow> int option" where
  "digits_at lit s =
     (if startswith s lit then
        (case takeWhile is_digit (drop (length lit) s) of
           [] \<Rightarrow> None
         | d # ds \<Rightarrow> Some (int_of_digits (d # ds)))
      else None)"

fun search_digits :: "string \<Rightarrow> string \<Rightarrow> int option" where
  "search_digits lit [] = digits_at lit []"
| "search_digits lit (c # cs) =
     (case digits_at lit (c # cs) of
        Some n \<Rightarrow> Some n
      | None \<Rightarrow> search_digits lit cs)"

text \<open>
  The score patterns are a literal followed by \<open>(-?\d+)\<close>: an optional minus sign, then
  at least one digit.
\<close>

definition signed_at :: "string \<Rightarrow> string \<Rightarrow> int option" where
  "signed_at lit s =
     (if startswith s lit then
        (case drop (length lit) s of
           [] \<Rightarrow> None
         | c # r \<Rightarrow>
             (if c = CHR ''-'' then
                (case takeWhile is_digit r of
                   [] \<Rightarrow> None
                 | d # ds \<Rightarrow> Some (- int_of_digits (d # ds)))
              else
                (case takeWhile is_digit (c # r) of
                   [] \<Rightarrow> None
                 | d # ds \<Rightarrow> Some (int_of_digits (d # ds)))))
      else None)"

fun search_signed :: "string \<Rightarrow> string \<Rightarrow> int option" where
  "search_signed lit [] = signed_at lit []"
| "search_signed lit (c # cs) =
     (case signed_at lit (c # cs) of
        Some n \<Rightarrow> Some n
      | None \<Rightarrow> search_signed lit cs)"

text \<open>
  \<open>pv_pattern\<close> is the literal \<open>" pv "\<close> followed by \<open>(.+)$\<close>: a non-empty run of
  characters other than the line feed, reaching the end of the string or the line feed
  that ends it. The group is that run.
\<close>

definition pv_at :: "string \<Rightarrow> string option" where
  "pv_at s =
     (if startswith s '' pv '' then
        (let r = drop 4 s;
             g = takeWhile (\<lambda>c. c \<noteq> CHR 0x0A) r;
             t = dropWhile (\<lambda>c. c \<noteq> CHR 0x0A) r
         in if g \<noteq> [] \<and> (t = [] \<or> t = [CHR 0x0A]) then Some g else None)
      else None)"

fun search_pv :: "string \<Rightarrow> string option" where
  "search_pv [] = pv_at []"
| "search_pv (c # cs) =
     (case pv_at (c # cs) of
        Some g \<Rightarrow> Some g
      | None \<Rightarrow> search_pv cs)"

section \<open>The data model\<close>

text \<open>
  \<open>MoveCandidate\<close> and \<open>PositionAnalysis\<close>. The module that declares them
  (\<open>move_candidates\<close>) is not among the sources at hand; the fields are those that
  the two constructor calls of \<open>_parse_analysis\<close> name, with the types of the values
  passed. The analysis's own \<open>depth\<close> is named \<open>depth_max\<close> here, since the
  candidate has a field of that name too.
\<close>

record move_candidate =
  move :: string
  move_san :: string
  score_cp :: int
  score_wdl :: "int \<times> int \<times> int"
  pv :: "string list"
  pv_san :: "string list"
  nodes :: int
  depth :: int
  policy :: real
  rank :: int
  multipv_index :: int

record position_analysis =
  fen :: string
  candidates :: "move_candidate list"
  evaluation_cp :: int
  evaluation_wdl :: "int \<times> int \<times> int"
  total_nodes :: int
  time_ms :: int
  nps :: int
  depth_max :: int
  seldepth :: int
  multipv :: int

text \<open>The exceptions that can leave the wrapper's methods.\<close>

datatype error =
    RuntimeError
  | ValueError
  | InvalidMoveError
  | AssertionError
  | OverflowError
  | UnicodeDecodeError
  | ConnectionResetError

text \<open>
  What the parser calls outside this repository: the chess library (boards of type
  \<open>'b\<close>, moves of type \<open>'m\<close>) and the floating-point arithmetic of
  \<open>_estimate_wdl\<close>. They are parameters of the model.
  \<^item> \<open>board_of_fen\<close> is \<open>chess.Board(fen)\<close>; \<open>None\<close> when it raises
    \<open>ValueError\<close> on a string that is no FEN.
  \<^item> \<open>from_uci\<close> is \<open>chess.Move.from_uci\<close>; \<open>None\<close> when it raises
    \<open>InvalidMoveError\<close>.
  \<^item> \<open>legal b m\<close> is \<open>m in b.legal_moves\<close>.
  \<^item> \<open>san b m\<close> is \<open>b.san(m)\<close>, which may raise.
  \<^item> \<open>push b m\<close> is the board after \<open>b.push(m)\<close>.
  \<^item> \<open>win_draw cp\<close> is the pair \<open>(win, draw)\<close> that \<open>_estimate_wdl\<close>
    computes in double precision; \<open>None\<close> when \<open>math.exp\<close> raises
    \<open>OverflowError\<close>.
\<close>

record ('b, 'm) externals =
  board_of_fen :: "string \<Rightarrow> 'b option"
  from_uci :: "string \<Rightarrow> 'm option"
  legal :: "'b \<Rightarrow> 'm \<Rightarrow> bool"
  san :: "'b \<Rightarrow> 'm \<Rightarrow> error + string"
  push :: "'b \<Rightarrow> 'm \<Rightarrow> 'b"
  win_draw :: "int \<Rightarrow> (int \<times> int) option"

text \<open>The exceptions caught by \<open>except (ValueError, chess.InvalidMoveError)\<close>.\<close>

definition caught :: "error \<Rightarrow> bool" where
  "caught e = (e = ValueError \<or> e = InvalidMoveError)"

section \<open>\<open>_estimate_wdl\<close>\<close>

text \<open>
  \<open>win\<close> and \<open>draw\<close> come from the floating-point part; \<open>loss\<close> is
  \<open>1000 - win - draw\<close>.
\<close>

definition estimate_wdl :: "('b, 'm) externals \<Rightarrow> int \<Rightarrow> error + (int \<times> int \<times> int)" where
  "estimate_wdl ext cp =
     (case win_draw ext cp of
        None \<Rightarrow> Inl OverflowError
      | Some (win, draw) \<Rightarrow> Inr (win, draw, 1000 - win - draw))"

section \<open>\<open>_parse_analysis\<close>\<close>

text \<open>The score of an info line: a mate distance wins over a centipawn value; 0 without either.\<close>

definition line_score :: "string \<Rightarrow> int" where
  "line_score line =
     (case search_signed ''score mate '' line of
        Some mate_in \<Rightarrow> (if mate_in > 0 then 10000 - \<bar>mate_in\<bar> else - 10000 + \<bar>mate_in\<bar>)
      | None \<Rightarrow>
          (case search_signed ''score cp '' line of
             Some cp \<Rightarrow> cp
           | None \<Rightarrow> 0))"

text \<open>
  The walk of the variation on a copy of the board: the loop stops at the first move that
  does not parse, is not legal, or whose notation raises a caught exception; any other
  exception leaves the parser.
\<close>

fun walk_pv :: "('b, 'm) externals \<Rightarrow> 'b \<Rightarrow> string list \<Rightarrow> error + string list" where
  "walk_pv ext b [] = Inr []"
| "walk_pv ext b (u # us) =
     (case from_uci ext u of
        None \<Rightarrow> Inr []
      | Some m \<Rightarrow>
          (if legal ext b m then
             (case san ext b m of
                Inl e \<Rightarrow> (if caught e then Inr [] else Inl e)
              | Inr s \<Rightarrow>
                  (case walk_pv ext (push ext b m) us of
                     Inl e \<Rightarrow> Inl e
                   | Inr ss \<Rightarrow> Inr (s # ss)))
           else Inr []))"

text \<open>The variation of an info line: \<open>pv_match.group(1).split()\<close>, empty without a match.\<close>

definition line_pv :: "string \<Rightarrow> string list" where
  "line_pv line = (case search_pv line of Some g \<Rightarrow> split_ws g | None \<Rightarrow> [])"

text \<open>What one info line contributes.\<close>

datatype line_result =
    Skipped
  | No_candidate
  | Candidate move_candidate

text \<open>
  The body of the loop over \<open>info_lines\<close>, up to the candidate it builds.
  \<open>Skipped\<close>: one of the first two \<open>continue\<close>s, before anything is recorded.
  \<open>No_candidate\<close>: the line counts for the telemetry only (no variation, or a first
  move that raises a caught exception).
\<close>

definition parse_info_line :: "('b, 'm) externals \<Rightarrow> 'b \<Rightarrow> string \<Rightarrow> error + line_result" where
  "parse_info_line ext board line =
     (if \<not> contains line ''multipv'' then Inr Skipped
      else
        (case search_digits ''multipv '' line of
           None \<Rightarrow> Inr Skipped
         | Some mpv_idx \<Rightarrow>
             (let depth_v = (case search_digits '' depth '' line of Some d \<Rightarrow> d | None \<Rightarrow> 0);
                  nodes_v = (case search_digits ''nodes '' line of Some n \<Rightarrow> n | None \<Rightarrow> 0);
                  cp = line_score line
              in
                (case estimate_wdl ext cp of
                   Inl e \<Rightarrow> Inl e
                 | Inr wdl \<Rightarrow>
                     (let pv_v = line_pv line
                      in
                        (case walk_pv ext board pv_v of
                           Inl e \<Rightarrow> Inl e
                         | Inr pv_san_v \<Rightarrow>
                             (case pv_v of
                                [] \<Rightarrow> Inr No_candidate
                              | move_uci # _ \<Rightarrow>
                                  (case from_uci ext move_uci of
                                     None \<Rightarrow> Inr No_candidate
                                   | Some m \<Rightarrow>
                                       (case san ext board m of
                                          Inl e \<Rightarrow> (if caught e then Inr No_candidate else Inl e)
                                        | Inr s \<Rightarrow>
                                            Inr (Candidate
                                              \<lparr>move = move_uci, move_san = s, score_cp = cp,
                                               score_wdl = wdl, pv = pv_v, pv_san = pv_san_v,
                                               nodes = nodes_v, depth = depth_v, policy = 0,
                                               rank = mpv_idx, multipv_index = mpv_idx\<rparr>))))))))))"

text \<open>The local variables of the loop: the dictionary of candidates and the five maxima.\<close>

record parse_state =
  cands :: "(int \<times> move_candidate) list"
  max_nodes :: int
  max_time :: int
  max_nps :: int
  max_depth :: int
  max_seldepth :: int

definition telemetry :: "string \<Rightarrow> parse_state \<Rightarrow> parse_state" where
  "telemetry line st =
     st\<lparr>max_time := (case search_digits '' time '' line of
                        Some t \<Rightarrow> max (max_time st) t | None \<Rightarrow> max_time st),
        max_nps := (case search_digits ''nps '' line of
                       Some n \<Rightarrow> max (max_nps st) n | None \<Rightarrow> max_nps st),
        max_nodes := max (max_nodes st)
                       (case search_digits ''nodes '' line of Some n \<Rightarrow> n | None \<Rightarrow> 0),
        max_depth := max (max_depth st)
                       (case search_digits '' depth '' line of Some d \<Rightarrow> d | None \<Rightarrow> 0),
        max_seldepth := max (max_seldepth st)
                       (case search_digits ''seldepth '' line of Some d \<Rightarrow> d | None \<Rightarrow> 0)\<rparr>"

text \<open>
  One iteration. The dictionary is an association list in insertion order;
  \<open>candidates[mpv_idx] = ...\<close> replaces the entry of the key or appends one.
\<close>

definition parse_step :: "('b, 'm) externals \<Rightarrow> 'b \<Rightarrow> parse_state \<Rightarrow> string \<Rightarrow> error + parse_state" where
  "parse_step ext board st line =
     (case parse_info_line ext board line of
        Inl e \<Rightarrow> Inl e
      | Inr Skipped \<Rightarrow> Inr st
      | Inr No_candidate \<Rightarrow> Inr (telemetry line st)
      | Inr (Candidate c) \<Rightarrow>
          Inr ((telemetry line st)\<lparr>cands := AList.update (multipv_index c) c (cands st)\<rparr>))"

fun parse_lines :: "('b, 'm) externals \<Rightarrow> 'b \<Rightarrow> parse_state \<Rightarrow> string list \<Rightarrow> error + parse_state" where
  "parse_lines ext board st [] = Inr st"
| "parse_lines ext board st (line # rest) =
     (case parse_step ext board st line of
        Inl e \<Rightarrow> Inl e
      | Inr st' \<Rightarrow> parse_lines ext board st' rest)"

definition initial_state :: parse_state where
  "initial_state =
     \<lparr>cands = [], max_nodes = 0, max_time = 0, max_nps = 0, max_depth = 0, max_seldepth = 0\<rparr>"

text \<open>\<open>[candidates[k] for k in sorted(candidates.keys()) if k in candidates]\<close>\<close>

definition sorted_candidates :: "(int \<times> move_candidate) list \<Rightarrow> move_candidate list" where
  "sorted_candidates d = List.map_filter (map_of d) (sort (map fst d))"

definition parse_analysis ::
  "('b, 'm) externals \<Rightarrow> string \<Rightarrow> string list \<Rightarrow> string \<Rightarrow> error + position_analysis" where
  "parse_analysis ext fen_v info_lines bestmove_line =
     (case board_of_fen ext fen_v of
        None \<Rightarrow> Inl ValueError
      | Some board \<Rightarrow>
          (case parse_lines ext board initial_state info_lines of
             Inl e \<Rightarrow> Inl e
           | Inr st \<Rightarrow>
               (let cs = sorted_candidates (cands st) in
                Inr \<lparr>fen = fen_v,
                     candidates = cs,
                     evaluation_cp = (case cs of [] \<Rightarrow> 0 | c # _ \<Rightarrow> score_cp c),
                     evaluation_wdl = (case cs of [] \<Rightarrow> (333, 334, 333) | c # _ \<Rightarrow> score_wdl c),
                     total_nodes = max_nodes st,
                     time_ms = max_time st,
                     nps = max_nps st,
                     depth_max = max_depth st,
                     seldepth = max_seldepth st,
                     multipv = int (length cs)\<rparr>)))"

section \<open>An instance of the external functions, for the examples\<close>

text \<open>
  A fragment of chess that is enough to run the parser on concrete lines. A board is the
  list of moves played from the starting position; the only FEN it knows is the
  starting position's. \<open>opening_book\<close> lists, for a few boards, legal moves with
  their notation; these entries are facts of chess. Moves outside the book count as
  illegal, and their notation raises.
\<close>

definition start_fen :: string where
  "start_fen = ''rnbqkbnr/pppppppp/8/8/8/8/PPPPPPPP/RNBQKBNR w KQkq - 0 1''"

definition opening_book :: "((string list \<times> string) \<times> string) list" where
  "opening_book =
     [(([], ''e2e4''), ''e4''),
      (([], ''d2d4''), ''d4''),
      (([], ''g1f3''), ''Nf3''),
      (([''e2e4''], ''e7e5''), ''e5''),
      (([''e2e4''], ''c7c5''), ''c5''),
      (([''d2d4''], ''d7d5''), ''d5''),
      (([''e2e4'', ''e7e5''], ''g1f3''), ''Nf3'')]"

text \<open>Coordinate notation: two squares, each a file \<open>a\<close>..\<open>h\<close> and a rank \<open>1\<close>..\<open>8\<close>.\<close>

definition coordinate_move :: "string \<Rightarrow> bool" where
  "coordinate_move u =
     (case u of
        [f1, r1, f2, r2] \<Rightarrow>
          f1 \<in> set ''abcdefgh'' \<and> r1 \<in> set ''12345678'' \<and>
          f2 \<in> set ''abcdefgh'' \<and> r2 \<in> set ''12345678''
      | _ \<Rightarrow> False)"

text \<open>
  The values of \<open>(win, draw)\<close> that the formula of \<open>_estimate_wdl\<close> gives in double
  precision for the scores of the examples. From -141957 centipawns downwards
  \<open>math.exp\<close> raises \<open>OverflowError\<close>. A score that is not listed is treated
  like an overflow; the examples use listed scores, or a score below that bound.
\<close>

definition example_win_draw :: "int \<Rightarrow> (int \<times> int) option" where
  "example_win_draw cp =
     (if cp \<le> - 141957 then None
      else if cp = 0 then Some (384, 230)
      else if cp = 20 then Some (409, 220)
      else if cp = 35 then Some (428, 212)
      else if cp = 40 then Some (434, 210)
      else None)"

definition example_ext :: "(string list, string) externals" where
  "example_ext =
     \<lparr>board_of_fen = (\<lambda>f. if f = start_fen then Some [] else None),
      from_uci = (\<lambda>u. if coordinate_move u then Some u else None),
      legal = (\<lambda>b m. map_of opening_book (b, m) \<noteq> None),
      san = (\<lambda>b m. case map_of opening_book (b, m) of
                      Some s \<Rightarrow> Inr s
                    | None \<Rightarrow> Inl AssertionError),
      push = (\<lambda>b m. b @ [m]),
      win_draw = example_win_draw\<rparr>"

section \<open>The subprocess and the wrapper's state\<close>

text \<open>
  A line the engine wrote to its standard output: bytes that decode to a text, or bytes
  that are no UTF-8, on which \<open>line.decode()\<close> raises.
\<close>

datatype raw_line = Text string | Undecodable

text \<open>
  The engine subprocess, as far as the wrapper can observe it: the lines it has written
  and the wrapper has not read yet (after them the stream is at its end, where
  \<open>readline\<close> returns the empty bytes), whether it has exited, and whether it exits
  within the five seconds \<open>stop\<close> grants it after \<open>quit\<close>.
\<close>

record engine_process =
  stdout_pending :: "raw_line list"
  exited :: bool
  quits_in_time :: bool

text \<open>What a method does to the outside, in order.\<close>

datatype event = Acquired | Released | Sent string | Killed

text \<open>
  The fields of \<open>StockfishWrapper\<close>: \<open>config.multipv\<close>, whether
  \<open>_process\<close>, \<open>_reader\<close> and \<open>_writer\<close> are set, \<open>_is_ready\<close>, and
  whether \<open>_lock\<close> is held; with them the subprocess the handles refer to and the
  trace of events so far.
\<close>

record wrapper =
  config_multipv :: int
  has_process :: bool
  has_reader :: bool
  has_writer :: bool
  is_ready_flag :: bool
  lock_held :: bool
  process :: engine_process
  trace :: "event list"

text \<open>A method returns a value or raises, and leaves a state.\<close>

type_synonym 'a outcome = "(error + 'a) \<times> wrapper"

text \<open>
  \<open>_send_command\<close>: \<open>RuntimeError\<close> without a writer; writing to a subprocess
  that has exited fails in \<open>drain\<close>.
\<close>

definition send_command :: "string \<Rightarrow> wrapper \<Rightarrow> unit outcome" where
  "send_command command s =
     (if \<not> has_writer s then (Inl RuntimeError, s)
      else if exited (process s) then (Inl ConnectionResetError, s)
      else (Inr (), s\<lparr>trace := trace s @ [Sent command]\<rparr>))"

text \<open>\<open>_read_line\<close>: the next line, decoded and stripped; the empty string at the end of the stream.\<close>

definition read_line :: "wrapper \<Rightarrow> string outcome" where
  "read_line s =
     (if \<not> has_reader s then (Inl RuntimeError, s)
      else
        (case stdout_pending (process s) of
           [] \<Rightarrow> (Inr [], s)
         | Undecodable # rest \<Rightarrow>
             (Inl UnicodeDecodeError, s\<lparr>process := (process s)\<lparr>stdout_pending := rest\<rparr>\<rparr>)
         | Text l # rest \<Rightarrow>
             (Inr (strip l), s\<lparr>process := (process s)\<lparr>stdout_pending := rest\<rparr>\<rparr>)))"

text \<open>
  The loop of \<open>_wait_for\<close>. It has no exit but the expected line and an exception of
  \<open>_read_line\<close>: a run that never ends is the value \<open>None\<close>.
\<close>

partial_function (option) wait_loop :: "string \<Rightarrow> string list \<Rightarrow> wrapper \<Rightarrow> string list outcome option" where
  "wait_loop expected lines s =
     (case read_line s of
        (Inl e, s') \<Rightarrow> Some (Inl e, s')
      | (Inr line, s') \<Rightarrow>
          (if startswith line expected then Some (Inr (lines @ [line]), s')
           else wait_loop expected (lines @ [line]) s'))"

declare wait_loop.simps [code]

definition wait_for :: "string \<Rightarrow> wrapper \<Rightarrow> string list outcome option" where
  "wait_for expected s = wait_loop expected [] s"

text \<open>The loop of \<open>_read_until_bestmove\<close>.\<close>

partial_function (option) bestmove_loop :: "string list \<Rightarrow> wrapper \<Rightarrow> (string list \<times> string) outcome option" where
  "bestmove_loop info_lines s =
     (case read_line s of
        (Inl e, s') \<Rightarrow> Some (Inl e, s')
      | (Inr line, s') \<Rightarrow>
          (if startswith line ''info'' \<and> contains line ''pv''
           then bestmove_loop (info_lines @ [line]) s'
           else if startswith line ''bestmove'' then Some (Inr (info_lines, line), s')
           else bestmove_loop info_lines s'))"

declare bestmove_loop.simps [code]

definition read_until_bestmove :: "wrapper \<Rightarrow> (string list \<times> string) outcome option" where
  "read_until_bestmove s = bestmove_loop [] s"

text \<open>
  \<open>async with self._lock\<close>: the lock is taken, the body runs, and the lock is released
  however the body ends. With the lock held by another task the caller waits for a
  release that nothing in this model performs.
\<close>

definition with_lock :: "(wrapper \<Rightarrow> 'a outcome option) \<Rightarrow> wrapper \<Rightarrow> 'a outcome option" where
  "with_lock body s =
     (if lock_held s then None
      else
        (case body (s\<lparr>lock_held := True, trace := trace s @ [Acquired]\<rparr>) of
           None \<Rightarrow> None
         | Some (r, s') \<Rightarrow> Some (r, s'\<lparr>lock_held := False, trace := trace s' @ [Released]\<rparr>)))"

text \<open>Sequencing: an exception ends the method.\<close>

definition and_then :: "'a outcome \<Rightarrow> ('a \<Rightarrow> wrapper \<Rightarrow> 'b outcome option) \<Rightarrow> 'b outcome option" where
  "and_then r k = (case r of (Inl e, s) \<Rightarrow> Some (Inl e, s) | (Inr x, s) \<Rightarrow> k x s)"

definition and_then_opt :: "'a outcome option \<Rightarrow> ('a \<Rightarrow> wrapper \<Rightarrow> 'b outcome option) \<Rightarrow> 'b outcome option" where
  "and_then_opt m k = (case m of None \<Rightarrow> None | Some r \<Rightarrow> and_then r k)"

subsection \<open>\<open>stop\<close>\<close>

definition stop :: "wrapper \<Rightarrow> unit outcome" where
  "stop s =
     (if \<not> has_process s then (Inr (), s)
      else
        (case send_command ''quit'' s of
           (Inl e, s1) \<Rightarrow> (Inl e, s1)
         | (Inr u, s1) \<Rightarrow>
             (let s2 =
                (if quits_in_time (process s1)
                 then s1\<lparr>process := (process s1)\<lparr>exited := True\<rparr>\<rparr>
                 else s1\<lparr>process := (process s1)\<lparr>exited := True\<rparr>,
                         trace := trace s1 @ [Killed]\<rparr>)
              in (Inr (), s2\<lparr>has_process := False, has_reader := False,
                              has_writer := False, is_ready_flag := False\<rparr>))))"

subsection \<open>\<open>is_ready\<close>\<close>

definition is_ready :: "wrapper \<Rightarrow> bool outcome option" where
  "is_ready s =
     (if \<not> is_ready_flag s then Some (Inr False, s)
      else
        with_lock
          (\<lambda>s. and_then (send_command ''isready'' s)
                  (\<lambda>u s. and_then_opt (wait_for ''readyok'' s)
                            (\<lambda>lines s. Some (Inr True, s))))
          s)"

subsection \<open>\<open>analyze_position\<close>\<close>

text \<open>\<open>str(n)\<close> for an integer, as the f-strings of the commands format it.\<close>

fun str_nat :: "nat \<Rightarrow> string" where
  "str_nat n =
     (if n < 10 then [''0123456789'' ! n]
      else str_nat (n div 10) @ [''0123456789'' ! (n mod 10)])"

definition str_int :: "int \<Rightarrow> string" where
  "str_int i = (if i < 0 then CHR ''-'' # str_nat (nat (- i)) else str_nat (nat i))"

definition go_command :: "int option \<Rightarrow> int option \<Rightarrow> int option \<Rightarrow> string" where
  "go_command nodes_v depth_v time_v =
     ''go'' @
     (case depth_v of
        Some d \<Rightarrow> '' depth '' @ str_int d
      | None \<Rightarrow>
          (case time_v of
             Some t \<Rightarrow> '' movetime '' @ str_int t
           | None \<Rightarrow>
               (case nodes_v of
                  Some n \<Rightarrow> '' depth '' @ str_int (max 15 (min 30 (10 + n div 100000)))
                | None \<Rightarrow> '' depth 20'')))"

text \<open>\<open>num_moves is not None and num_moves != self.config.multipv\<close>\<close>

definition multipv_differs :: "int option \<Rightarrow> wrapper \<Rightarrow> bool" where
  "multipv_differs num_moves s =
     (case num_moves of None \<Rightarrow> False | Some n \<Rightarrow> n \<noteq> config_multipv s)"

definition set_multipv :: "int option \<Rightarrow> wrapper \<Rightarrow> unit outcome" where
  "set_multipv num_moves s =
     (case num_moves of
        None \<Rightarrow> (Inr (), s)
      | Some n \<Rightarrow>
          (if n \<noteq> config_multipv s
           then send_command (''setoption name MultiPV value '' @ str_int n) s
           else (Inr (), s)))"

definition restore_multipv :: "int option \<Rightarrow> wrapper \<Rightarrow> unit outcome" where
  "restore_multipv num_moves s =
     (if multipv_differs num_moves s
      then send_command (''setoption name MultiPV value '' @ str_int (config_multipv s)) s
      else (Inr (), s))"

definition analyze_position ::
  "('b, 'm) externals \<Rightarrow> string \<Rightarrow> int option \<Rightarrow> int option \<Rightarrow> int option \<Rightarrow> int option \<Rightarrow>
   wrapper \<Rightarrow> position_analysis outcome option" where
  "analyze_position ext fen_v nodes_v depth_v time_v num_moves s =
     with_lock
       (\<lambda>s.
          if \<not> is_ready_flag s then Some (Inl RuntimeError, s)
          else
            and_then (set_multipv num_moves s)
              (\<lambda>u s. and_then (send_command (''position fen '' @ fen_v) s)
                 (\<lambda>u s. and_then (send_command (go_command nodes_v depth_v time_v) s)
                    (\<lambda>u s. and_then_opt (read_until_bestmove s)
                       (\<lambda>(info_lines, bestmove_line) s.
                          and_then (restore_multipv num_moves s)
                            (\<lambda>u s. Some (parse_analysis ext fen_v info_lines bestmove_line, s)))))))
       s"

section \<open>States for the examples\<close>

text \<open>The wrapper after \<open>__init__\<close>, with the default \<open>multipv\<close> of 10: nothing is started.\<close>

definition fresh_wrapper :: wrapper where
  "fresh_wrapper =
     \<lparr>config_multipv = 10, has_process = False, has_reader = False, has_writer = False,
      is_ready_flag = False, lock_held = False,
      process = \<lparr>stdout_pending = [], exited = False, quits_in_time = True\<rparr>,
      trace = []\<rparr>"

text \<open>
  The wrapper after a successful \<open>start\<close>, in front of an engine that will write the
  lines \<open>out\<close>.
\<close>

definition started_wrapper :: "raw_line list \<Rightarrow> wrapper" where
  "started_wrapper out =
     \<lparr>config_multipv = 10, has_process = True, has_reader = True, has_writer = True,
      is_ready_flag = True, lock_held = False,
      process = \<lparr>stdout_pending = out, exited = False, quits_in_time = True\<rparr>,
      trace = []\<rparr>"

text \<open>A started wrapper whose engine has exited since.\<close>

definition crashed_wrapper :: wrapper where
  "crashed_wrapper =
     (started_wrapper [])\<lparr>process := \<lparr>stdout_pending = [], exited = True, quits_in_time = True\<rparr>\<rparr>"

section \<open>Notions used in the statements\<close>

text \<open>The lines \<open>_read_until_bestmove\<close> keeps.\<close>

definition info_pv_line :: "string \<Rightarrow> bool" where
  "info_pv_line x \<longleftrightarrow> startswith x ''info'' \<and> contains x ''pv''"

text \<open>
  A reader in front of text lines none of which starts with the expected prefix,
  followed by the end of the stream.
\<close>

definition silent :: "string \<Rightarrow> wrapper \<Rightarrow> bool" where
  "silent expected s \<longleftrightarrow>
     has_reader s \<and> expected \<noteq> [] \<and>
     (\<exists>ls. stdout_pending (process s) = map Text ls \<and> (\<forall>x\<in>set ls. \<not> startswith (strip x) expected))"

definition no_bestmove :: "wrapper \<Rightarrow> bool" where
  "no_bestmove s \<longleftrightarrow>
     has_reader s \<and>
     (\<exists>ls. stdout_pending (process s) = map Text ls \<and>
           (\<forall>x\<in>set ls. \<not> startswith (strip x) ''bestmove''))"

text \<open>The output of a search of the starting position, as in the specification's scenario.\<close>

definition search_output :: "raw_line list" where
  "search_output =
     [Text ''info depth 10 multipv 1 score cp 35 nodes 50000 time 120 nps 400000 pv e2e4 e7e5'',
      Text ''bestmove e2e4'']"

text \<open>A started wrapper whose engine ignores \<open>quit\<close>.\<close>

definition stubborn_wrapper :: wrapper where
  "stubborn_wrapper =
     (started_wrapper [])\<lparr>process := \<lparr>stdout_pending = [], exited = False, quits_in_time = False\<rparr>\<rparr>"

text \<open>
  The length of the legal prefix of a variation: the position of the first move that
  does not parse or is not legal on the board reached by the moves before it.
\<close>

fun legal_prefix :: "('b, 'm) externals \<Rightarrow> 'b \<Rightarrow> string list \<Rightarrow> nat" where
  "legal_prefix ext b [] = 0"
| "legal_prefix ext b (u # us) =
     (case from_uci ext u of
        None \<Rightarrow> 0
      | Some m \<Rightarrow> (if legal ext b m then Suc (legal_prefix ext (push ext b m) us) else 0))"

text \<open>The MultiPV index of the candidate a line yields, if it yields one.\<close>

definition line_index :: "('b, 'm) externals \<Rightarrow> 'b \<Rightarrow> string \<Rightarrow> int option" where
  "line_index ext board line =
     (case parse_info_line ext board line of
        Inr (Candidate c) \<Rightarrow> Some (multipv_index c)
      | _ \<Rightarrow> None)"

text \<open>The indices that survive: those of the lines that yield a candidate, in line order.\<close>

definition surviving :: "('b, 'm) externals \<Rightarrow> 'b \<Rightarrow> string list \<Rightarrow> int list" where
  "surviving ext board lines = List.map_filter (line_index ext board) lines"

text \<open>The candidate of the latest line that yields one for the index \<open>k\<close>.\<close>

fun latest :: "('b, 'm) externals \<Rightarrow> 'b \<Rightarrow> int \<Rightarrow> string list \<Rightarrow> move_candidate option" where
  "latest ext board k [] = None"
| "latest ext board k (line # rest) =
     (case latest ext board k rest of
        Some c \<Rightarrow> Some c
      | None \<Rightarrow>
          (case parse_info_line ext board line of
             Inr (Candidate c) \<Rightarrow> (if multipv_index c = k then Some c else None)
           | _ \<Rightarrow> None))"

text \<open>No line raises.\<close>

definition lines_parse :: "('b, 'm) externals \<Rightarrow> 'b \<Rightarrow> string list \<Rightarrow> bool" where
  "lines_parse ext board lines \<longleftrightarrow>
     (\<forall>line\<in>set lines. case parse_info_line ext board line of Inl e \<Rightarrow> False | Inr r \<Rightarrow> True)"

text \<open>No line yields a candidate, and none raises.\<close>

definition no_candidates :: "('b, 'm) externals \<Rightarrow> 'b \<Rightarrow> string list \<Rightarrow> bool" where
  "no_candidates ext board lines \<longleftrightarrow>
     (\<forall>line\<in>set lines.
        parse_info_line ext board line = Inr Skipped \<or>
        parse_info_line ext board line = Inr No_candidate)"

text \<open>The notation of a legal move never raises, as in the chess library.\<close>

definition san_of_legal :: "('b, 'm) externals \<Rightarrow> bool" where
  "san_of_legal ext \<longleftrightarrow> (\<forall>b m. legal ext b m \<longrightarrow> (\<exists>s. san ext b m = Inr s))"

section \<open>Engine outputs for the examples\<close>

text \<open>Two candidates, each reported once.\<close>

definition two_lines :: "string list" where
  "two_lines =
     [''info depth 10 multipv 1 score cp 35 nodes 50000 pv e2e4 e7e5'',
      ''info depth 10 multipv 2 score cp 20 nodes 50000 pv d2d4 d7d5'']"

text \<open>The line of the first candidate carries no variation.\<close>

definition gap_lines :: "string list" where
  "gap_lines =
     [''info depth 10 multipv 1 score cp 35'',
      ''info depth 10 multipv 2 score cp 20 pv d2d4 d7d5'']"

text \<open>A variation of three legal moves, and one whose third move is illegal.\<close>

definition legal_pv_line :: string where
  "legal_pv_line = ''info depth 10 multipv 1 score cp 35 pv e2e4 e7e5 g1f3''"

definition illegal_pv_line :: string where
  "illegal_pv_line = ''info depth 10 multipv 1 score cp 35 pv e2e4 e7e5 e2e4 g1f3''"

text \<open>The first candidate reported twice; the later line with and without a variation.\<close>

definition refined_lines :: "string list" where
  "refined_lines =
     [''info depth 10 multipv 1 score cp 35 pv e2e4 e7e5'',
      ''info depth 12 multipv 1 score cp 40 pv d2d4 d7d5'']"

definition unrefined_lines :: "string list" where
  "unrefined_lines =
     [''info depth 10 multipv 1 score cp 35 pv e2e4 e7e5'',
      ''info depth 12 multipv 1 score cp 40'']"

text \<open>Only the second candidate has a variation; and a score beyond the range of \<open>math.exp\<close>.\<close>

definition second_only_lines :: "string list" where
  "second_only_lines =
     [''info depth 8 multipv 1 score cp 40'',
      ''info depth 8 multipv 2 score cp 20 pv g1f3'']"

definition overflow_lines :: "string list" where
  "overflow_lines = [''info depth 1 multipv 1 score cp -200000'']"

text \<open>What the parser returns for \<open>two_lines\<close> and for \<open>refined_lines\<close>.\<close>

definition two_lines_analysis :: position_analysis where
  "two_lines_analysis =
     \<lparr>fen = start_fen,
      candidates =
        [\<lparr>move = ''e2e4'', move_san = ''e4'', score_cp = 35, score_wdl = (428, 212, 360),
          pv = [''e2e4'', ''e7e5''], pv_san = [''e4'', ''e5''], nodes = 50000, depth = 10,
          policy = 0, rank = 1, multipv_index = 1\<rparr>,
         \<lparr>move = ''d2d4'', move_san = ''d4'', score_cp = 20, score_wdl = (409, 220, 371),
          pv = [''d2d4'', ''d7d5''], pv_san = [''d4'', ''d5''], nodes = 50000, depth = 10,
          policy = 0, rank = 2, multipv_index = 2\<rparr>],
      evaluation_cp = 35, evaluation_wdl = (428, 212, 360),
      total_nodes = 50000, time_ms = 0, nps = 0, depth_max = 10, seldepth = 0, multipv = 2\<rparr>"

definition refined_candidate :: move_candidate where
  "refined_candidate =
     \<lparr>move = ''d2d4'', move_san = ''d4'', score_cp = 40, score_wdl = (434, 210, 356),
      pv = [''d2d4'', ''d7d5''], pv_san = [''d4'', ''d5''], nodes = 0, depth = 12,
      policy = 0, rank = 1, multipv_index = 1\<rparr>"

definition refined_analysis :: position_analysis where
  "refined_analysis =
     \<lparr>fen = start_fen,
      candidates = [refined_candidate],
      evaluation_cp = 40, evaluation_wdl = (434, 210, 356),
      total_nodes = 0, time_ms = 0, nps = 0, depth_max = 12, seldepth = 0, multipv = 1\<rparr>"

text \<open>The candidates of \<open>legal_pv_line\<close> and of \<open>illegal_pv_line\<close>.\<close>

definition legal_pv_candidate :: move_candidate where
  "legal_pv_candidate =
     \<lparr>move = ''e2e4'', move_san = ''e4'', score_cp = 35, score_wdl = (428, 212, 360),
      pv = [''e2e4'', ''e7e5'', ''g1f3''], pv_san = [''e4'', ''e5'', ''Nf3''],
      nodes = 0, depth = 10, policy = 0, rank = 1, multipv_index = 1\<rparr>"

definition illegal_pv_candidate :: move_candidate where
  "illegal_pv_candidate =
     \<lparr>move = ''e2e4'', move_san = ''e4'', score_cp = 35, score_wdl = (428, 212, 360),
      pv = [''e2e4'', ''e7e5'', ''e2e4'', ''g1f3''], pv_san = [''e4'', ''e5''],
      nodes = 0, depth = 10, policy = 0, rank = 1, multipv_index = 1\<rparr>"

section \<open>The estimate of win, draw and loss\<close>

text \<open>
  Whatever the floating-point part computes, the triple of \<open>_estimate_wdl\<close> sums to
  1000, the loss being the remainder.
\<close>

lemma estimate_wdl_sum:
  "estimate_wdl ext cp = Inr (win, draw, loss) \<Longrightarrow> loss = 1000 - win - draw \<and> win + draw + loss = 1000"
  by (auto simp add: estimate_wdl_def split: option.splits)

section \<open>The candidates of a parsed analysis\<close>

text \<open>Two facts about \<open>List.map_filter\<close> over a list of keys that are all bound.\<close>

lemma map_filter_cover:
  "\<forall>k\<in>set ks. \<exists>c. m k = Some c \<and> f c = k \<Longrightarrow> map f (List.map_filter m ks) = ks"
  by (induction ks) (auto simp add: List.map_filter_simps)

lemma map_filter_pick:
  "distinct ks \<Longrightarrow> \<forall>j\<in>set ks. \<exists>c. m j = Some c \<and> f c = j \<Longrightarrow>
   filter (\<lambda>c. f c = k) (List.map_filter m ks) = (if k \<in> set ks then [the (m k)] else [])"
  by (induction ks) (auto simp add: List.map_filter_simps)

lemma candidate_fields:
  "parse_info_line ext board line = Inr (Candidate c) \<Longrightarrow> rank c = multipv_index c"
  by (auto simp add: parse_info_line_def Let_def
        split: if_splits option.splits sum.splits list.splits)

text \<open>The dictionary after one line, and after all of them.\<close>

lemma cands_telemetry: "cands (telemetry line st) = cands st"
  by (simp add: telemetry_def)

lemma parse_step_cands:
  "parse_step ext board st line = Inr st' \<Longrightarrow>
   cands st' =
     (case parse_info_line ext board line of
        Inr (Candidate c) \<Rightarrow> AList.update (multipv_index c) c (cands st)
      | _ \<Rightarrow> cands st)"
  by (auto simp add: parse_step_def cands_telemetry split: sum.splits line_result.splits)

lemma parse_step_lookup:
  "parse_step ext board st line = Inr st' \<Longrightarrow>
   map_of (cands st') k =
     (case latest ext board k [line] of
        Some c \<Rightarrow> Some c
      | None \<Rightarrow> map_of (cands st) k)"
  by (auto simp add: parse_step_cands update_conv' split: sum.splits line_result.splits)

lemma latest_append_one:
  "latest ext board k (line # rest) =
     (case latest ext board k rest of
        Some c \<Rightarrow> Some c
      | None \<Rightarrow> latest ext board k [line])"
  by (simp split: option.splits)

lemma parse_lines_lookup:
  "parse_lines ext board st lines = Inr st' \<Longrightarrow>
   map_of (cands st') k =
     (case latest ext board k lines of
        Some c \<Rightarrow> Some c
      | None \<Rightarrow> map_of (cands st) k)"
proof (induction lines arbitrary: st)
  case Nil
  then show ?case by simp
next
  case (Cons line rest)
  from Cons.prems obtain st1 where
    step: "parse_step ext board st line = Inr st1" and
    rest: "parse_lines ext board st1 rest = Inr st'"
    by (auto split: sum.splits)
  show ?case
    unfolding Cons.IH [OF rest] latest_append_one [of ext board k line rest]
      parse_step_lookup [OF step, of k]
    by (simp split: option.splits)
qed

lemma parse_step_distinct:
  "parse_step ext board st line = Inr st' \<Longrightarrow> distinct (map fst (cands st)) \<Longrightarrow>
   distinct (map fst (cands st'))"
  by (auto simp add: parse_step_cands distinct_update split: sum.splits line_result.splits)

lemma parse_lines_distinct:
  "parse_lines ext board st lines = Inr st' \<Longrightarrow> distinct (map fst (cands st)) \<Longrightarrow>
   distinct (map fst (cands st'))"
proof (induction lines arbitrary: st)
  case Nil
  then show ?case by simp
next
  case (Cons line rest)
  from Cons.prems obtain st1 where
    step: "parse_step ext board st line = Inr st1" and
    rest: "parse_lines ext board st1 rest = Inr st'"
    by (auto split: sum.splits)
  from parse_step_distinct [OF step] Cons.prems have "distinct (map fst (cands st1))" by simp
  with Cons.IH [OF rest] show ?case .
qed

text \<open>What \<open>latest\<close> returns was yielded by a line, under its own index.\<close>

lemma latest_Some:
  "latest ext board k lines = Some c \<Longrightarrow>
   multipv_index c = k \<and> rank c = k \<and>
   (\<exists>line\<in>set lines. parse_info_line ext board line = Inr (Candidate c))"
proof (induction lines)
  case Nil
  then show ?case by simp
next
  case (Cons line rest)
  then show ?case
    by (auto simp add: candidate_fields split: option.splits sum.splits line_result.splits if_splits)
qed

lemma latest_surviving:
  "latest ext board k lines \<noteq> None \<longleftrightarrow> k \<in> set (surviving ext board lines)"
  by (induction lines)
     (auto simp add: surviving_def line_index_def List.map_filter_simps
        split: option.splits sum.splits line_result.splits)

text \<open>The dictionary at the end of the loop, started empty.\<close>

lemma final_lookup:
  assumes "parse_lines ext board initial_state lines = Inr st"
  shows "map_of (cands st) k = latest ext board k lines"
  using parse_lines_lookup [OF assms, of k] by (simp add: initial_state_def split: option.splits)

lemma final_distinct:
  assumes "parse_lines ext board initial_state lines = Inr st"
  shows "distinct (map fst (cands st))"
  using parse_lines_distinct [OF assms] by (simp add: initial_state_def)

lemma final_keys:
  assumes "parse_lines ext board initial_state lines = Inr st"
  shows "set (map fst (cands st)) = set (surviving ext board lines)"
proof -
  have "set (map fst (cands st)) = dom (map_of (cands st))"
    by (simp add: dom_map_of_conv_image_fst)
  also have "\<dots> = {k. latest ext board k lines \<noteq> None}"
    using final_lookup [OF assms] by (auto simp add: dom_def)
  also have "\<dots> = set (surviving ext board lines)"
    by (simp only: latest_surviving Collect_mem_eq)
  finally show ?thesis .
qed

lemma final_cover:
  assumes "parse_lines ext board initial_state lines = Inr st"
  shows "\<forall>k\<in>set (sort (map fst (cands st))). \<exists>c. map_of (cands st) k = Some c \<and> rank c = k"
proof
  fix k assume "k \<in> set (sort (map fst (cands st)))"
  then have "k \<in> dom (map_of (cands st))" by (simp add: dom_map_of_conv_image_fst)
  then obtain c where c: "map_of (cands st) k = Some c" by blast
  with final_lookup [OF assms, of k] have "latest ext board k lines = Some c" by simp
  from latest_Some [OF this] c show "\<exists>c. map_of (cands st) k = Some c \<and> rank c = k" by blast
qed

lemma final_ranks:
  assumes "parse_lines ext board initial_state lines = Inr st"
  shows "map rank (sorted_candidates (cands st)) = sort (remdups (surviving ext board lines))"
proof -
  have "map rank (sorted_candidates (cands st)) = sort (map fst (cands st))"
    unfolding sorted_candidates_def using final_cover [OF assms] by (rule map_filter_cover)
  also have "\<dots> = sort (remdups (surviving ext board lines))"
  proof (rule sorted_distinct_set_unique)
    show "distinct (sort (map fst (cands st)))" using final_distinct [OF assms] by simp
    show "set (sort (map fst (cands st))) = set (sort (remdups (surviving ext board lines)))"
      using final_keys [OF assms] by simp
  qed simp_all
  finally show ?thesis .
qed

lemma parse_analysis_Inr:
  "parse_analysis ext fen_v lines bm = Inr pa \<Longrightarrow>
   \<exists>board st. board_of_fen ext fen_v = Some board \<and>
     parse_lines ext board initial_state lines = Inr st \<and>
     candidates pa = sorted_candidates (cands st)"
  by (auto simp add: parse_analysis_def Let_def split: option.splits sum.splits)

text \<open>The ranks of the returned list are the indices that survive, in ascending order.\<close>

lemma parsed_ranks:
  assumes "parse_analysis ext fen_v info_lines bestmove_line = Inr pa"
    and "board_of_fen ext fen_v = Some board"
  shows "map rank (candidates pa) = sort (remdups (surviving ext board info_lines))"
    and "map multipv_index (candidates pa) = map rank (candidates pa)"
    and "distinct (map multipv_index (candidates pa))"
proof -
  from parse_analysis_Inr [OF assms(1)] assms(2) obtain st where
    st: "parse_lines ext board initial_state info_lines = Inr st" and
    cs: "candidates pa = sorted_candidates (cands st)" by auto
  show r: "map rank (candidates pa) = sort (remdups (surviving ext board info_lines))"
    unfolding cs by (rule final_ranks [OF st])
  have "\<forall>k\<in>set (sort (map fst (cands st))). \<exists>c. map_of (cands st) k = Some c \<and> multipv_index c = k"
  proof
    fix k assume "k \<in> set (sort (map fst (cands st)))"
    with final_cover [OF st] obtain c where c: "map_of (cands st) k = Some c" by blast
    with final_lookup [OF st, of k] have "latest ext board k info_lines = Some c" by simp
    from latest_Some [OF this] c
    show "\<exists>c. map_of (cands st) k = Some c \<and> multipv_index c = k" by blast
  qed
  then have "map multipv_index (sorted_candidates (cands st)) = sort (map fst (cands st))"
    unfolding sorted_candidates_def by (rule map_filter_cover)
  moreover have "map rank (sorted_candidates (cands st)) = sort (map fst (cands st))"
    unfolding sorted_candidates_def using final_cover [OF st] by (rule map_filter_cover)
  ultimately show m: "map multipv_index (candidates pa) = map rank (candidates pa)"
    unfolding cs by simp
  show "distinct (map multipv_index (candidates pa))"
    unfolding m r by simp
qed

text \<open>Every candidate returned was built from one of the lines.\<close>

lemma candidates_from_lines:
  assumes "parse_analysis ext fen_v info_lines bestmove_line = Inr pa"
    and "board_of_fen ext fen_v = Some board"
    and "c \<in> set (candidates pa)"
  shows "\<exists>line\<in>set info_lines. parse_info_line ext board line = Inr (Candidate c)"
proof -
  from parse_analysis_Inr [OF assms(1)] assms(2) obtain st where
    st: "parse_lines ext board initial_state info_lines = Inr st" and
    cs: "candidates pa = sorted_candidates (cands st)" by auto
  from assms(3) obtain k where "map_of (cands st) k = Some c"
    unfolding cs sorted_candidates_def by (auto simp add: List.map_filter_def)
  then have "latest ext board k info_lines = Some c"
    unfolding final_lookup [OF st] .
  from latest_Some [OF this] show ?thesis by blast
qed

text \<open>
  C1 (as amended). The candidates of a parsed analysis are listed in strictly ascending
  rank, hence with unique ranks, and the rank of a candidate is its MultiPV index,
  unchanged: the ranks are the sorted indices of the lines that yield a candidate. An
  index whose lines never yield a parsed move is absent from the list; the indices
  after it keep their numbers, so the ranks need not be \<open>1..N\<close>.
\<close>

theorem ranks_are_multipv_indices:
  assumes "parse_analysis ext fen_v info_lines bestmove_line = Inr pa"
    and "board_of_fen ext fen_v = Some board"
  shows "map rank (candidates pa) = sort (remdups (surviving ext board info_lines)) \<and>
         sorted_wrt (<) (map rank (candidates pa)) \<and>
         map multipv_index (candidates pa) = map rank (candidates pa)"
proof -
  have "sorted_wrt (<) (sort (remdups (surviving ext board info_lines)))"
    by (simp add: strict_sorted_iff)
  with parsed_ranks(1,2) [OF assms] show ?thesis by simp
qed

text \<open>Two candidates with the indices 1 and 2.\<close>

lemma start_board: "board_of_fen example_ext start_fen = Some []"
  by (simp add: example_ext_def)

lemma two_lines_parse:
  "parse_analysis example_ext start_fen two_lines ''bestmove e2e4'' = Inr two_lines_analysis"
  by code_simp

lemma two_lines_surviving: "surviving example_ext [] two_lines = [1, 2]"
  by code_simp

theorem ranks_are_multipv_indices_witness:
  "parse_analysis example_ext start_fen two_lines ''bestmove e2e4'' = Inr two_lines_analysis \<and>
   board_of_fen example_ext start_fen = Some [] \<and>
   map rank (candidates two_lines_analysis) = sort (remdups (surviving example_ext [] two_lines)) \<and>
   sorted_wrt (<) (map rank (candidates two_lines_analysis)) \<and>
   map multipv_index (candidates two_lines_analysis) = map rank (candidates two_lines_analysis) \<and>
   surviving example_ext [] two_lines = [1, 2]"
  using ranks_are_multipv_indices [OF two_lines_parse start_board] two_lines_parse start_board
    two_lines_surviving
  by blast

text \<open>
  The claim as stated fails: the line of index 1 has no variation and is dropped, and
  the only candidate returned has rank 2.
\<close>

theorem rank_is_not_relabelled:
  "parse_analysis example_ext start_fen gap_lines ''bestmove d2d4'' =
     Inr \<lparr>fen = start_fen,
          candidates =
            [\<lparr>move = ''d2d4'', move_san = ''d4'', score_cp = 20, score_wdl = (409, 220, 371),
              pv = [''d2d4'', ''d7d5''], pv_san = [''d4'', ''d5''], nodes = 0, depth = 10,
              policy = 0, rank = 2, multipv_index = 2\<rparr>],
          evaluation_cp = 20, evaluation_wdl = (409, 220, 371),
          total_nodes = 0, time_ms = 0, nps = 0, depth_max = 10, seldepth = 0, multipv = 1\<rparr>"
  by code_simp

section \<open>Lines that report the same candidate\<close>

lemma index_known:
  assumes "parse_lines ext board initial_state lines = Inr st"
  shows "k \<in> set (sort (map fst (cands st))) \<longleftrightarrow> latest ext board k lines \<noteq> None"
proof -
  have "k \<in> set (sort (map fst (cands st))) \<longleftrightarrow> k \<in> dom (map_of (cands st))"
    by (simp add: dom_map_of_conv_image_fst)
  also have "\<dots> \<longleftrightarrow> map_of (cands st) k \<noteq> None"
    by (simp add: domIff)
  finally show ?thesis unfolding final_lookup [OF assms] .
qed

text \<open>
  C8 (as amended). For every MultiPV index, a parsed analysis holds at most one
  candidate: the one built from the latest line of that index that yields a candidate
  (a variation whose first move parses and has a notation), and none when no line of
  the index does. A later line of the index that yields no candidate replaces nothing.
\<close>

theorem latest_line_with_a_move_survives:
  assumes "parse_analysis ext fen_v info_lines bestmove_line = Inr pa"
    and "board_of_fen ext fen_v = Some board"
  shows "filter (\<lambda>c. multipv_index c = k) (candidates pa) =
           (case latest ext board k info_lines of None \<Rightarrow> [] | Some c \<Rightarrow> [c])"
proof -
  from parse_analysis_Inr [OF assms(1)] assms(2) obtain st where
    st: "parse_lines ext board initial_state info_lines = Inr st" and
    cs: "candidates pa = sorted_candidates (cands st)" by auto
  let ?ks = "sort (map fst (cands st))"
  have d: "distinct ?ks" using final_distinct [OF st] by simp
  have cover: "\<forall>j\<in>set ?ks. \<exists>c. map_of (cands st) j = Some c \<and> multipv_index c = j"
  proof
    fix j assume "j \<in> set ?ks"
    with final_cover [OF st] obtain c where c: "map_of (cands st) j = Some c" by blast
    with final_lookup [OF st, of j] have "latest ext board j info_lines = Some c" by simp
    from latest_Some [OF this] c
    show "\<exists>c. map_of (cands st) j = Some c \<and> multipv_index c = j" by blast
  qed
  have "filter (\<lambda>c. multipv_index c = k) (candidates pa) =
          (if k \<in> set ?ks then [the (map_of (cands st) k)] else [])"
    unfolding cs sorted_candidates_def using d cover by (rule map_filter_pick)
  also have "\<dots> = (case latest ext board k info_lines of None \<Rightarrow> [] | Some c \<Rightarrow> [c])"
    unfolding index_known [OF st] final_lookup [OF st] by (simp split: option.splits)
  finally show ?thesis .
qed

text \<open>The first candidate refined at depth 12 with another variation.\<close>

lemma refined_lines_parse:
  "parse_analysis example_ext start_fen refined_lines ''bestmove d2d4'' = Inr refined_analysis"
  by code_simp

lemma refined_lines_latest:
  "latest example_ext [] 1 refined_lines = Some refined_candidate"
  by code_simp

theorem latest_line_with_a_move_survives_witness:
  "parse_analysis example_ext start_fen refined_lines ''bestmove d2d4'' = Inr refined_analysis \<and>
   board_of_fen example_ext start_fen = Some [] \<and>
   filter (\<lambda>c. multipv_index c = 1) (candidates refined_analysis) = [refined_candidate] \<and>
   latest example_ext [] 1 refined_lines = Some refined_candidate"
  using latest_line_with_a_move_survives [OF refined_lines_parse start_board, of 1]
    refined_lines_parse start_board refined_lines_latest
  by simp

text \<open>
  The claim as stated fails: the latest line of index 1 (depth 12, score 40) carries no
  variation; the candidate returned is that of the earlier line (depth 10, score 35).
\<close>

theorem earlier_line_survives:
  "parse_analysis example_ext start_fen unrefined_lines ''bestmove e2e4'' =
     Inr \<lparr>fen = start_fen,
          candidates =
            [\<lparr>move = ''e2e4'', move_san = ''e4'', score_cp = 35, score_wdl = (428, 212, 360),
              pv = [''e2e4'', ''e7e5''], pv_san = [''e4'', ''e5''], nodes = 0, depth = 10,
              policy = 0, rank = 1, multipv_index = 1\<rparr>],
          evaluation_cp = 35, evaluation_wdl = (428, 212, 360),
          total_nodes = 0, time_ms = 0, nps = 0, depth_max = 12, seldepth = 0, multipv = 1\<rparr>"
  by code_simp

section \<open>The evaluation of a parsed analysis\<close>

lemma parse_lines_total:
  "lines_parse ext board lines \<Longrightarrow> \<exists>st'. parse_lines ext board st lines = Inr st'"
proof (induction lines arbitrary: st)
  case Nil
  then show ?case by simp
next
  case (Cons line rest)
  from Cons.prems obtain r where r: "parse_info_line ext board line = Inr r"
    by (auto simp add: lines_parse_def split: sum.splits)
  then obtain st1 where st1: "parse_step ext board st line = Inr st1"
    by (cases r) (simp_all add: parse_step_def)
  from Cons.prems have "lines_parse ext board rest" by (simp add: lines_parse_def)
  from Cons.IH [OF this, of st1] st1 show ?case by simp
qed

lemma no_candidates_parse: "no_candidates ext board lines \<Longrightarrow> lines_parse ext board lines"
  by (auto simp add: no_candidates_def lines_parse_def)

lemma no_candidates_surviving: "no_candidates ext board lines \<Longrightarrow> surviving ext board lines = []"
  by (induction lines)
     (auto simp add: no_candidates_def surviving_def line_index_def List.map_filter_simps)

lemma parse_analysis_total:
  assumes "board_of_fen ext fen_v = Some board" and "lines_parse ext board lines"
  shows "\<exists>pa. parse_analysis ext fen_v lines bm = Inr pa"
proof -
  from parse_lines_total [OF assms(2), of initial_state] obtain st where
    "parse_lines ext board initial_state lines = Inr st" ..
  with assms(1) show ?thesis by (simp add: parse_analysis_def Let_def)
qed

lemma parse_analysis_evaluation:
  assumes "parse_analysis ext fen_v lines bm = Inr pa"
  shows "evaluation_cp pa = (case candidates pa of [] \<Rightarrow> 0 | c # _ \<Rightarrow> score_cp c)"
    and "evaluation_wdl pa = (case candidates pa of [] \<Rightarrow> (333, 334, 333) | c # _ \<Rightarrow> score_wdl c)"
    and "multipv pa = int (length (candidates pa))"
    and "fen pa = fen_v"
  using assms by (auto simp add: parse_analysis_def Let_def split: option.splits sum.splits)

text \<open>
  C9 (as amended). In every parsed analysis \<open>evaluation_cp\<close> and
  \<open>evaluation_wdl\<close> are the scores of the first candidate of the list, the one of
  lowest rank (its rank is its MultiPV index and need not be 1), and 0 and
  \<open>(333, 334, 333)\<close> when the list is empty. The parser returns whenever the board
  constructor accepts the FEN and no line raises; when, besides, no line yields a
  candidate, it returns the empty list with the neutral values. A FEN that the board
  constructor refuses raises \<open>ValueError\<close>.
\<close>

theorem evaluation_from_first_candidate:
  "(parse_analysis ext fen_v lines bm = Inr pa \<longrightarrow>
      evaluation_cp pa = (case candidates pa of [] \<Rightarrow> 0 | c # _ \<Rightarrow> score_cp c) \<and>
      evaluation_wdl pa = (case candidates pa of [] \<Rightarrow> (333, 334, 333) | c # _ \<Rightarrow> score_wdl c) \<and>
      (\<forall>c\<in>set (candidates pa). rank (hd (candidates pa)) \<le> rank c)) \<and>
   (board_of_fen ext fen_v = Some board \<and> lines_parse ext board lines \<longrightarrow>
      (\<exists>pa'. parse_analysis ext fen_v lines bm = Inr pa')) \<and>
   (board_of_fen ext fen_v = Some board \<and> no_candidates ext board lines \<longrightarrow>
      (\<exists>pa'. parse_analysis ext fen_v lines bm = Inr pa' \<and> candidates pa' = [] \<and>
         evaluation_cp pa' = 0 \<and> evaluation_wdl pa' = (333, 334, 333))) \<and>
   (board_of_fen ext fen_v = None \<longrightarrow> parse_analysis ext fen_v lines bm = Inl ValueError)"
proof (intro conjI impI)
  assume p: "parse_analysis ext fen_v lines bm = Inr pa"
  from parse_analysis_evaluation(1) [OF p]
  show "evaluation_cp pa = (case candidates pa of [] \<Rightarrow> 0 | c # _ \<Rightarrow> score_cp c)" .
  from parse_analysis_evaluation(2) [OF p]
  show "evaluation_wdl pa = (case candidates pa of [] \<Rightarrow> (333, 334, 333) | c # _ \<Rightarrow> score_wdl c)" .
  from parse_analysis_Inr [OF p] obtain b where b: "board_of_fen ext fen_v = Some b" by blast
  have "sorted (map rank (candidates pa))"
    unfolding parsed_ranks(1) [OF p b] by simp
  then show "\<forall>c\<in>set (candidates pa). rank (hd (candidates pa)) \<le> rank c"
    by (cases "candidates pa") auto
next
  assume "board_of_fen ext fen_v = Some board \<and> lines_parse ext board lines"
  then show "\<exists>pa'. parse_analysis ext fen_v lines bm = Inr pa'"
    using parse_analysis_total [of ext fen_v board lines bm] by simp
next
  assume a: "board_of_fen ext fen_v = Some board \<and> no_candidates ext board lines"
  then obtain pa' where p: "parse_analysis ext fen_v lines bm = Inr pa'"
    using parse_analysis_total [of ext fen_v board lines bm]
      no_candidates_parse [of ext board lines] by auto
  from a have "map rank (candidates pa') = []"
    unfolding parsed_ranks(1) [OF p conjunct1 [OF a]] by (simp add: no_candidates_surviving)
  then have "candidates pa' = []" by simp
  with parse_analysis_evaluation(1,2) [OF p] p
  show "\<exists>pa'. parse_analysis ext fen_v lines bm = Inr pa' \<and> candidates pa' = [] \<and>
         evaluation_cp pa' = 0 \<and> evaluation_wdl pa' = (333, 334, 333)" by simp
next
  assume "board_of_fen ext fen_v = None"
  then show "parse_analysis ext fen_v lines bm = Inl ValueError"
    by (simp add: parse_analysis_def)
qed

text \<open>Two candidates; a line without variation; and the empty FEN.\<close>

lemma quiet_line_no_candidates:
  "no_candidates example_ext [] [''info depth 8 multipv 1 score cp 40'']"
  by code_simp

lemma empty_fen_refused: "parse_analysis example_ext [] [] ''bestmove 0000'' = Inl ValueError"
  by code_simp

lemma empty_fen_board: "board_of_fen example_ext [] = None"
  by code_simp

theorem evaluation_from_first_candidate_witness:
  "parse_analysis example_ext start_fen two_lines ''bestmove e2e4'' = Inr two_lines_analysis \<and>
   evaluation_cp two_lines_analysis = 35 \<and>
   evaluation_wdl two_lines_analysis = (428, 212, 360) \<and>
   no_candidates example_ext [] [''info depth 8 multipv 1 score cp 40''] \<and>
   (\<exists>pa'. parse_analysis example_ext start_fen [''info depth 8 multipv 1 score cp 40'']
            ''bestmove (none)'' = Inr pa' \<and>
          candidates pa' = [] \<and> evaluation_cp pa' = 0 \<and> evaluation_wdl pa' = (333, 334, 333)) \<and>
   parse_analysis example_ext [] [] ''bestmove 0000'' = Inl ValueError"
  using
    evaluation_from_first_candidate
      [of example_ext start_fen two_lines "''bestmove e2e4''" two_lines_analysis "[]"]
    evaluation_from_first_candidate
      [of example_ext start_fen "[''info depth 8 multipv 1 score cp 40'']" "''bestmove (none)''"
          two_lines_analysis "[]"]
    evaluation_from_first_candidate
      [of example_ext "[]" "[]" "''bestmove 0000''" two_lines_analysis "[]"]
    two_lines_parse start_board quiet_line_no_candidates empty_fen_board
  by (simp add: two_lines_analysis_def)

text \<open>
  The claim as stated fails: with a candidate of rank 2 only, the evaluation is that
  candidate's and no candidate has rank 1; and with no candidate at all the parser
  raises on a string that is no FEN, and on a score for which \<open>math.exp\<close>
  overflows.
\<close>

lemma second_only_parse:
  "parse_analysis example_ext start_fen second_only_lines ''bestmove g1f3'' =
     Inr \<lparr>fen = start_fen,
          candidates =
            [\<lparr>move = ''g1f3'', move_san = ''Nf3'', score_cp = 20, score_wdl = (409, 220, 371),
              pv = [''g1f3''], pv_san = [''Nf3''], nodes = 0, depth = 8,
              policy = 0, rank = 2, multipv_index = 2\<rparr>],
          evaluation_cp = 20, evaluation_wdl = (409, 220, 371),
          total_nodes = 0, time_ms = 0, nps = 0, depth_max = 8, seldepth = 0, multipv = 1\<rparr>"
  by code_simp

lemma overflow_parse:
  "parse_analysis example_ext start_fen overflow_lines ''bestmove e2e4'' = Inl OverflowError"
  by code_simp

theorem evaluation_not_of_rank_one:
  "parse_analysis example_ext start_fen second_only_lines ''bestmove g1f3'' =
     Inr \<lparr>fen = start_fen,
          candidates =
            [\<lparr>move = ''g1f3'', move_san = ''Nf3'', score_cp = 20, score_wdl = (409, 220, 371),
              pv = [''g1f3''], pv_san = [''Nf3''], nodes = 0, depth = 8,
              policy = 0, rank = 2, multipv_index = 2\<rparr>],
          evaluation_cp = 20, evaluation_wdl = (409, 220, 371),
          total_nodes = 0, time_ms = 0, nps = 0, depth_max = 8, seldepth = 0, multipv = 1\<rparr> \<and>
   parse_analysis example_ext [] [] ''bestmove 0000'' = Inl ValueError \<and>
   parse_analysis example_ext start_fen overflow_lines ''bestmove e2e4'' = Inl OverflowError"
  using second_only_parse empty_fen_refused overflow_parse by blast

section \<open>The variation of a candidate\<close>

lemma walk_pv_le: "walk_pv ext b us = Inr ss \<Longrightarrow> length ss \<le> legal_prefix ext b us"
proof (induction us arbitrary: b ss)
  case Nil
  then show ?case by simp
next
  case (Cons u us)
  then show ?case
    by (fastforce split: option.splits if_splits sum.splits)
qed

lemma walk_pv_eq:
  "san_of_legal ext \<Longrightarrow> walk_pv ext b us = Inr ss \<Longrightarrow> length ss = legal_prefix ext b us"
proof (induction us arbitrary: b ss)
  case Nil
  then show ?case by simp
next
  case (Cons u us)
  show ?case
  proof (cases "from_uci ext u")
    case None
    with Cons.prems show ?thesis by simp
  next
    case (Some m)
    show ?thesis
    proof (cases "legal ext b m")
      case False
      with Some Cons.prems show ?thesis by simp
    next
      case True
      with Cons.prems(1) obtain s where s: "san ext b m = Inr s"
        unfolding san_of_legal_def by blast
      with Some True Cons.prems(2) obtain ss' where
        w: "walk_pv ext (push ext b m) us = Inr ss'" and ss: "ss = s # ss'"
        by (auto split: sum.splits)
      from Cons.IH [OF Cons.prems(1) w] Some True ss show ?thesis by simp
    qed
  qed
qed

lemma legal_prefix_le: "legal_prefix ext b us \<le> length us"
  by (induction us arbitrary: b) (auto split: option.splits)

lemma candidate_pv:
  assumes "parse_info_line ext board line = Inr (Candidate c)"
  shows "pv c = line_pv line" and "walk_pv ext board (line_pv line) = Inr (pv_san c)"
    and "\<exists>u us m. pv c = u # us \<and> move c = u \<and> from_uci ext u = Some m"
  using assms
  by (auto simp add: parse_info_line_def Let_def
        split: if_splits option.splits sum.splits list.splits)

text \<open>
  C2 (as amended). The candidate built from an info line keeps the whole variation of
  the line in \<open>pv\<close>, untruncated, and its move is the first move of the
  variation, which parses. Its \<open>pv_san\<close> is never longer than the legal
  prefix of the variation, and has exactly the length of the legal prefix when the
  notation of a legal move never raises: it stops at the first move that does not parse
  or is not legal at its position. A fully legal variation of length \<open>m\<close> yields
  \<open>m\<close> moves in human notation.
\<close>

theorem pv_san_is_legal_prefix:
  assumes "parse_info_line ext board line = Inr (Candidate c)"
  shows "pv c = line_pv line \<and>
         (\<exists>u us m. pv c = u # us \<and> move c = u \<and> from_uci ext u = Some m) \<and>
         length (pv_san c) \<le> legal_prefix ext board (pv c) \<and>
         legal_prefix ext board (pv c) \<le> length (pv c) \<and>
         (san_of_legal ext \<longrightarrow> length (pv_san c) = legal_prefix ext board (pv c)) \<and>
         (san_of_legal ext \<and> legal_prefix ext board (pv c) = length (pv c) \<longrightarrow>
            length (pv_san c) = length (pv c))"
  using candidate_pv [OF assms] walk_pv_le [of ext board "pv c" "pv_san c"]
    walk_pv_eq [of ext board "pv c" "pv_san c"] legal_prefix_le [of ext board "pv c"]
  by auto

text \<open>A variation of three legal moves, and one of four moves whose third is illegal.\<close>

lemma example_san_of_legal: "san_of_legal example_ext"
  by (auto simp add: san_of_legal_def example_ext_def)

lemma legal_pv_parse:
  "parse_info_line example_ext [] legal_pv_line = Inr (Candidate legal_pv_candidate)"
  by code_simp

lemma illegal_pv_parse:
  "parse_info_line example_ext [] illegal_pv_line = Inr (Candidate illegal_pv_candidate)"
  by code_simp

lemma legal_pv_prefix: "legal_prefix example_ext [] (pv legal_pv_candidate) = 3"
  by code_simp

lemma illegal_pv_prefix: "legal_prefix example_ext [] (pv illegal_pv_candidate) = 2"
  by code_simp

lemma illegal_pv_length: "length (pv illegal_pv_candidate) = 4"
  by (simp add: illegal_pv_candidate_def)

theorem pv_san_is_legal_prefix_witness:
  "parse_info_line example_ext [] legal_pv_line = Inr (Candidate legal_pv_candidate) \<and>
   san_of_legal example_ext \<and>
   length (pv_san legal_pv_candidate) = legal_prefix example_ext [] (pv legal_pv_candidate) \<and>
   legal_prefix example_ext [] (pv legal_pv_candidate) = 3 \<and>
   parse_info_line example_ext [] illegal_pv_line = Inr (Candidate illegal_pv_candidate) \<and>
   length (pv_san illegal_pv_candidate) = legal_prefix example_ext [] (pv illegal_pv_candidate) \<and>
   legal_prefix example_ext [] (pv illegal_pv_candidate) = 2 \<and>
   length (pv illegal_pv_candidate) = 4"
  using pv_san_is_legal_prefix [OF legal_pv_parse] pv_san_is_legal_prefix [OF illegal_pv_parse]
    legal_pv_parse illegal_pv_parse example_san_of_legal
    legal_pv_prefix illegal_pv_prefix illegal_pv_length
  by blast

text \<open>
  The claim as stated fails: the third move of the variation is illegal; \<open>pv_san\<close>
  has the two legal moves, and \<open>pv\<close> still has all four.
\<close>

theorem pv_is_not_truncated:
  "parse_analysis example_ext start_fen [illegal_pv_line] ''bestmove e2e4'' =
     Inr \<lparr>fen = start_fen,
          candidates =
            [\<lparr>move = ''e2e4'', move_san = ''e4'', score_cp = 35, score_wdl = (428, 212, 360),
              pv = [''e2e4'', ''e7e5'', ''e2e4'', ''g1f3''], pv_san = [''e4'', ''e5''],
              nodes = 0, depth = 10, policy = 0, rank = 1, multipv_index = 1\<rparr>],
          evaluation_cp = 35, evaluation_wdl = (428, 212, 360),
          total_nodes = 0, time_ms = 0, nps = 0, depth_max = 10, seldepth = 0, multipv = 1\<rparr>"
  by code_simp

section \<open>Reading from the engine\<close>



lemma read_line_text:
  "has_reader s \<Longrightarrow> stdout_pending (process s) = Text l # rest \<Longrightarrow>
   read_line s = (Inr (strip l), s\<lparr>process := (process s)\<lparr>stdout_pending := rest\<rparr>\<rparr>)"
  by (simp add: read_line_def)

lemma read_line_eof:
  "has_reader s \<Longrightarrow> stdout_pending (process s) = [] \<Longrightarrow> read_line s = (Inr [], s)"
  by (simp add: read_line_def)

lemma read_line_undecodable:
  "has_reader s \<Longrightarrow> stdout_pending (process s) = Undecodable # rest \<Longrightarrow>
   read_line s = (Inl UnicodeDecodeError, s\<lparr>process := (process s)\<lparr>stdout_pending := rest\<rparr>\<rparr>)"
  by (simp add: read_line_def)

text \<open>The loop of \<open>_wait_for\<close> returns at the first line that starts with the expected prefix.\<close>

lemma wait_loop_found:
  "has_reader s \<Longrightarrow> stdout_pending (process s) = map Text pre @ Text l # rest \<Longrightarrow>
   \<forall>x\<in>set pre. \<not> startswith (strip x) expected \<Longrightarrow> startswith (strip l) expected \<Longrightarrow>
   wait_loop expected acc s =
     Some (Inr (acc @ map strip pre @ [strip l]), s\<lparr>process := (process s)\<lparr>stdout_pending := rest\<rparr>\<rparr>)"
proof (induction pre arbitrary: acc s)
  case Nil
  then show ?case
    by (subst wait_loop.simps) (simp add: read_line_text)
next
  case (Cons p pre)
  let ?s' = "s\<lparr>process := (process s)\<lparr>stdout_pending := map Text pre @ Text l # rest\<rparr>\<rparr>"
  have rd: "read_line s = (Inr (strip p), ?s')"
    using Cons.prems by (simp add: read_line_text)
  have "wait_loop expected (acc @ [strip p]) ?s' =
          Some (Inr ((acc @ [strip p]) @ map strip pre @ [strip l]),
                ?s'\<lparr>process := (process ?s')\<lparr>stdout_pending := rest\<rparr>\<rparr>)"
    using Cons.prems by (intro Cons.IH) simp_all
  then show ?case
    using Cons.prems rd by (subst wait_loop.simps) simp
qed

text \<open>Without such a line it never returns: a returning run would contradict \<open>silent\<close>.\<close>

lemma wait_loop_never_aux:
  assumes "wait_loop expected acc s = Some y"
  shows "\<not> silent expected s"
proof (rule wait_loop.raw_induct [where P = "\<lambda>e a s y. \<not> silent e s", OF _ assms])
  fix f e a s y
  assume IH: "\<And>e a s y. f e a s = Some y \<Longrightarrow> \<not> silent e s"
    and step: "(case read_line s of (Inl e, s') \<Rightarrow> Some (Inl e, s')
                | (Inr line, s') \<Rightarrow>
                    if startswith line e then Some (Inr (a @ [line]), s')
                    else f e (a @ [line]) s') = Some y"
  show "\<not> silent e s"
  proof
    assume q: "silent e s"
    then obtain ls where ls: "stdout_pending (process s) = map Text ls"
      "\<forall>x\<in>set ls. \<not> startswith (strip x) e" and r: "has_reader s" and ne: "e \<noteq> []"
      unfolding silent_def by blast
    from ne obtain c cs where e: "e = c # cs" by (cases e) auto
    show False
    proof (cases ls)
      case Nil
      with ls r have "read_line s = (Inr [], s)" by (simp add: read_line_eof)
      with step e have "f e (a @ [[]]) s = Some y" by simp
      from IH [OF this] q show False by blast
    next
      case (Cons l ls')
      let ?s' = "s\<lparr>process := (process s)\<lparr>stdout_pending := map Text ls'\<rparr>\<rparr>"
      from Cons ls r have "read_line s = (Inr (strip l), ?s')" by (simp add: read_line_text)
      with step ls Cons have "f e (a @ [strip l]) ?s' = Some y" by simp
      from IH [OF this] have "\<not> silent e ?s'" .
      moreover from r ne ls Cons have "silent e ?s'" unfolding silent_def by auto
      ultimately show False by blast
    qed
  qed
qed

lemma wait_loop_never:
  "silent expected s \<Longrightarrow> wait_loop expected acc s = None"
  using wait_loop_never_aux [of expected acc s] by (cases "wait_loop expected acc s") auto


text \<open>A read that raises ends the loop of \<open>_wait_for\<close> with that exception.\<close>

lemma wait_loop_undecodable:
  "has_reader s \<Longrightarrow> stdout_pending (process s) = map Text pre @ Undecodable # rest \<Longrightarrow>
   \<forall>x\<in>set pre. \<not> startswith (strip x) expected \<Longrightarrow>
   wait_loop expected acc s =
     Some (Inl UnicodeDecodeError, s\<lparr>process := (process s)\<lparr>stdout_pending := rest\<rparr>\<rparr>)"
proof (induction pre arbitrary: acc s)
  case Nil
  then show ?case
    by (subst wait_loop.simps) (simp add: read_line_undecodable)
next
  case (Cons p pre)
  let ?s' = "s\<lparr>process := (process s)\<lparr>stdout_pending := map Text pre @ Undecodable # rest\<rparr>\<rparr>"
  have rd: "read_line s = (Inr (strip p), ?s')"
    using Cons.prems by (simp add: read_line_text)
  have "wait_loop expected (acc @ [strip p]) ?s' =
          Some (Inl UnicodeDecodeError, ?s'\<lparr>process := (process ?s')\<lparr>stdout_pending := rest\<rparr>\<rparr>)"
    using Cons.prems by (intro Cons.IH) simp_all
  then show ?case
    using Cons.prems rd by (subst wait_loop.simps) simp
qed

lemma wait_loop_no_reader:
  "\<not> has_reader s \<Longrightarrow> wait_loop expected acc s = Some (Inl RuntimeError, s)"
  by (subst wait_loop.simps) (simp add: read_line_def)

lemma bestmove_not_info: "startswith x ''bestmove'' \<Longrightarrow> \<not> startswith x ''info''"
  by (cases x) auto

lemma bestmove_loop_found:
  "has_reader s \<Longrightarrow> stdout_pending (process s) = map Text pre @ Text l # rest \<Longrightarrow>
   \<forall>x\<in>set pre. \<not> startswith (strip x) ''bestmove'' \<Longrightarrow> startswith (strip l) ''bestmove'' \<Longrightarrow>
   bestmove_loop acc s =
     Some (Inr (acc @ filter info_pv_line (map strip pre), strip l),
           s\<lparr>process := (process s)\<lparr>stdout_pending := rest\<rparr>\<rparr>)"
proof (induction pre arbitrary: acc s)
  case Nil
  then show ?case
    by (subst bestmove_loop.simps) (simp add: read_line_text bestmove_not_info)
next
  case (Cons p pre)
  let ?s' = "s\<lparr>process := (process s)\<lparr>stdout_pending := map Text pre @ Text l # rest\<rparr>\<rparr>"
  let ?acc' = "if info_pv_line (strip p) then acc @ [strip p] else acc"
  have rd: "read_line s = (Inr (strip p), ?s')"
    using Cons.prems by (simp add: read_line_text)
  have "bestmove_loop ?acc' ?s' =
          Some (Inr (?acc' @ filter info_pv_line (map strip pre), strip l),
                ?s'\<lparr>process := (process ?s')\<lparr>stdout_pending := rest\<rparr>\<rparr>)"
    using Cons.prems by (intro Cons.IH) simp_all
  then show ?case
    using Cons.prems rd by (subst bestmove_loop.simps) (auto simp add: info_pv_line_def split: if_splits)
qed

lemma bestmove_loop_never_aux:
  assumes "bestmove_loop acc s = Some y"
  shows "\<not> no_bestmove s"
proof (rule bestmove_loop.raw_induct [where P = "\<lambda>a s y. \<not> no_bestmove s", OF _ assms])
  fix f a s y
  assume IH: "\<And>a s y. f a s = Some y \<Longrightarrow> \<not> no_bestmove s"
    and step: "(case read_line s of (Inl e, s') \<Rightarrow> Some (Inl e, s')
                | (Inr line, s') \<Rightarrow>
                    if startswith line ''info'' \<and> contains line ''pv''
                    then f (a @ [line]) s'
                    else if startswith line ''bestmove'' then Some (Inr (a, line), s')
                    else f a s') = Some y"
  show "\<not> no_bestmove s"
  proof
    assume q: "no_bestmove s"
    then obtain ls where ls: "stdout_pending (process s) = map Text ls"
      "\<forall>x\<in>set ls. \<not> startswith (strip x) ''bestmove''" and r: "has_reader s"
      unfolding no_bestmove_def by blast
    show False
    proof (cases ls)
      case Nil
      with ls r have "read_line s = (Inr [], s)" by (simp add: read_line_eof)
      with step have "f a s = Some y" by simp
      from IH [OF this] q show False by blast
    next
      case (Cons l ls')
      let ?s' = "s\<lparr>process := (process s)\<lparr>stdout_pending := map Text ls'\<rparr>\<rparr>"
      from Cons ls r have "read_line s = (Inr (strip l), ?s')" by (simp add: read_line_text)
      with step ls Cons have "\<exists>a'. f a' ?s' = Some y" by (auto split: if_splits)
      then obtain a' where "f a' ?s' = Some y" ..
      from IH [OF this] have "\<not> no_bestmove ?s'" .
      moreover from r ls Cons have "no_bestmove ?s'" unfolding no_bestmove_def by auto
      ultimately show False by blast
    qed
  qed
qed

lemma bestmove_loop_never:
  "no_bestmove s \<Longrightarrow> bestmove_loop acc s = None"
  using bestmove_loop_never_aux [of acc s] by (cases "bestmove_loop acc s") auto

lemma bestmove_loop_undecodable:
  "has_reader s \<Longrightarrow> stdout_pending (process s) = map Text pre @ Undecodable # rest \<Longrightarrow>
   \<forall>x\<in>set pre. \<not> startswith (strip x) ''bestmove'' \<Longrightarrow>
   bestmove_loop acc s =
     Some (Inl UnicodeDecodeError, s\<lparr>process := (process s)\<lparr>stdout_pending := rest\<rparr>\<rparr>)"
proof (induction pre arbitrary: acc s)
  case Nil
  then show ?case
    by (subst bestmove_loop.simps) (simp add: read_line_undecodable)
next
  case (Cons p pre)
  let ?s' = "s\<lparr>process := (process s)\<lparr>stdout_pending := map Text pre @ Undecodable # rest\<rparr>\<rparr>"
  have rd: "read_line s = (Inr (strip p), ?s')"
    using Cons.prems by (simp add: read_line_text)
  have "\<And>acc'. bestmove_loop acc' ?s' =
          Some (Inl UnicodeDecodeError, ?s'\<lparr>process := (process ?s')\<lparr>stdout_pending := rest\<rparr>\<rparr>)"
    using Cons.prems by (intro Cons.IH) simp_all
  then show ?case
    using Cons.prems rd by (subst bestmove_loop.simps) simp
qed


lemma wait_for_silent: "silent expected s \<Longrightarrow> wait_for expected s = None"
  by (simp add: wait_for_def wait_loop_never)

lemma read_until_bestmove_silent: "no_bestmove s \<Longrightarrow> read_until_bestmove s = None"
  by (simp add: read_until_bestmove_def bestmove_loop_never)

section \<open>Waiting for a sentinel line\<close>

text \<open>
  C3 (as amended). Neither wait takes a deadline. With a reader in place,
  \<open>_wait_for\<close> returns every line it has read, the sentinel included, as soon as a
  line starting with the expected prefix arrives, and \<open>_read_until_bestmove\<close>
  returns the lines that start with \<open>info\<close> and contain \<open>pv\<close>, with the
  \<open>bestmove\<close> line; the subprocess is left as it is, but for the lines read. When
  no such line arrives before the stream ends, neither wait returns: no timeout error
  is raised.
\<close>

theorem waits_without_deadline:
  assumes "has_reader s"
  shows
    "(stdout_pending (process s) = map Text pre @ Text l # rest \<and>
      (\<forall>x\<in>set pre. \<not> startswith (strip x) expected) \<and> startswith (strip l) expected \<longrightarrow>
        wait_for expected s =
          Some (Inr (map strip pre @ [strip l]),
                s\<lparr>process := (process s)\<lparr>stdout_pending := rest\<rparr>\<rparr>)) \<and>
     (stdout_pending (process s) = map Text ls \<and>
      (\<forall>x\<in>set ls. \<not> startswith (strip x) expected) \<and> expected \<noteq> [] \<longrightarrow>
        wait_for expected s = None) \<and>
     (stdout_pending (process s) = map Text pre @ Text l # rest \<and>
      (\<forall>x\<in>set pre. \<not> startswith (strip x) ''bestmove'') \<and> startswith (strip l) ''bestmove'' \<longrightarrow>
        read_until_bestmove s =
          Some (Inr (filter info_pv_line (map strip pre), strip l),
                s\<lparr>process := (process s)\<lparr>stdout_pending := rest\<rparr>\<rparr>)) \<and>
     (stdout_pending (process s) = map Text ls \<and>
      (\<forall>x\<in>set ls. \<not> startswith (strip x) ''bestmove'') \<longrightarrow>
        read_until_bestmove s = None)"
proof (intro conjI impI)
  assume "stdout_pending (process s) = map Text pre @ Text l # rest \<and>
      (\<forall>x\<in>set pre. \<not> startswith (strip x) expected) \<and> startswith (strip l) expected"
  with assms show "wait_for expected s =
          Some (Inr (map strip pre @ [strip l]),
                s\<lparr>process := (process s)\<lparr>stdout_pending := rest\<rparr>\<rparr>)"
    unfolding wait_for_def using wait_loop_found [of s pre l rest expected "[]"] by simp
next
  assume "stdout_pending (process s) = map Text ls \<and>
      (\<forall>x\<in>set ls. \<not> startswith (strip x) expected) \<and> expected \<noteq> []"
  with assms have "silent expected s" unfolding silent_def by blast
  then show "wait_for expected s = None" by (rule wait_for_silent)
next
  assume "stdout_pending (process s) = map Text pre @ Text l # rest \<and>
      (\<forall>x\<in>set pre. \<not> startswith (strip x) ''bestmove'') \<and> startswith (strip l) ''bestmove''"
  with assms show "read_until_bestmove s =
          Some (Inr (filter info_pv_line (map strip pre), strip l),
                s\<lparr>process := (process s)\<lparr>stdout_pending := rest\<rparr>\<rparr>)"
    unfolding read_until_bestmove_def using bestmove_loop_found [of s pre l rest "[]"] by simp
next
  assume "stdout_pending (process s) = map Text ls \<and>
      (\<forall>x\<in>set ls. \<not> startswith (strip x) ''bestmove'')"
  with assms have "no_bestmove s" unfolding no_bestmove_def by blast
  then show "read_until_bestmove s = None" by (rule read_until_bestmove_silent)
qed

text \<open>The definitions to unfold when a concrete line is evaluated.\<close>

lemmas text_eval = strip_def is_space_def info_pv_line_def started_wrapper_def

text \<open>A handshake answered by \<open>readyok\<close>, and a search answered by \<open>bestmove\<close>; and the same waits without the answer.\<close>

theorem waits_without_deadline_witness:
  "wait_for ''readyok'' (started_wrapper [Text ''id name X'', Text ''readyok'', Text ''later'']) =
     Some (Inr [''id name X'', ''readyok''], started_wrapper [Text ''later'']) \<and>
   wait_for ''readyok'' (started_wrapper [Text ''id name X'']) = None \<and>
   read_until_bestmove
     (started_wrapper [Text ''info depth 1 multipv 1 score cp 0 pv e2e4'',
                       Text ''info string hello'', Text ''bestmove e2e4'']) =
     Some (Inr ([''info depth 1 multipv 1 score cp 0 pv e2e4''], ''bestmove e2e4''),
           started_wrapper []) \<and>
   read_until_bestmove (started_wrapper [Text ''info string hello'']) = None"
  using
    waits_without_deadline
      [of "started_wrapper [Text ''id name X'', Text ''readyok'', Text ''later'']"
          "[''id name X'']" "''readyok''" "[Text ''later'']" "''readyok''" "[]"]
    waits_without_deadline
      [of "started_wrapper [Text ''id name X'']" "[]" "''x''" "[]" "''readyok''" "[''id name X'']"]
    waits_without_deadline
      [of "started_wrapper [Text ''info depth 1 multipv 1 score cp 0 pv e2e4'',
                            Text ''info string hello'', Text ''bestmove e2e4'']"
          "[''info depth 1 multipv 1 score cp 0 pv e2e4'', ''info string hello'']"
          "''bestmove e2e4''" "[]" "''x''" "[]"]
    waits_without_deadline
      [of "started_wrapper [Text ''info string hello'']" "[]" "''x''" "[]" "''x''"
          "[''info string hello'']"]
  by (simp add: text_eval)

text \<open>
  The claim as stated fails: in front of an engine that never answers, the wait for
  \<open>readyok\<close> does not end, and neither does the wait for \<open>bestmove\<close>.
\<close>

theorem wait_never_times_out:
  "wait_for ''readyok'' (started_wrapper []) = None \<and>
   read_until_bestmove (started_wrapper [Text ''info depth 1 multipv 1 score cp 0 pv e2e4'']) = None"
proof
  have "silent ''readyok'' (started_wrapper [])"
    unfolding silent_def by (simp add: started_wrapper_def)
  then show "wait_for ''readyok'' (started_wrapper []) = None" by (rule wait_for_silent)
next
  have "no_bestmove (started_wrapper [Text ''info depth 1 multipv 1 score cp 0 pv e2e4''])"
    unfolding no_bestmove_def
    by (rule conjI, simp add: started_wrapper_def,
        rule exI [of _ "[''info depth 1 multipv 1 score cp 0 pv e2e4'']"])
       (simp add: text_eval)
  then show "read_until_bestmove
      (started_wrapper [Text ''info depth 1 multipv 1 score cp 0 pv e2e4'']) = None"
    by (rule read_until_bestmove_silent)
qed


section \<open>Lifecycle\<close>

lemma send_command_ok:
  "has_writer s \<Longrightarrow> \<not> exited (process s) \<Longrightarrow>
   send_command c s = (Inr (), s\<lparr>trace := trace s @ [Sent c]\<rparr>)"
  by (simp add: send_command_def)

lemma send_command_fails:
  "\<not> has_writer s \<or> exited (process s) \<Longrightarrow>
   send_command c s = (Inl (if \<not> has_writer s then RuntimeError else ConnectionResetError), s)"
  by (auto simp add: send_command_def)

text \<open>
  C5 (as amended). \<open>is_ready\<close> returns false, without taking the lock or writing to
  the engine, exactly when \<open>_is_ready\<close> is unset. When it is set, \<open>is_ready\<close>
  probes the engine under the lock. A failing write raises, and so does a failing read
  during the wait for \<open>readyok\<close> (no reader, or bytes that do not decode), each
  after the lock is released. When \<open>readyok\<close> arrives the result is true; when it
  never arrives \<open>is_ready\<close> does not return. The result is never false.
\<close>

theorem is_ready_outcomes:
  "(\<not> is_ready_flag s \<longrightarrow> is_ready s = Some (Inr False, s)) \<and>
   (is_ready_flag s \<and> \<not> lock_held s \<and> (\<not> has_writer s \<or> exited (process s)) \<longrightarrow>
      is_ready s =
        Some (Inl (if \<not> has_writer s then RuntimeError else ConnectionResetError),
              s\<lparr>trace := trace s @ [Acquired, Released]\<rparr>)) \<and>
   (is_ready_flag s \<and> \<not> lock_held s \<and> has_writer s \<and> \<not> exited (process s) \<and> has_reader s \<and>
    stdout_pending (process s) = map Text pre @ Text l # rest \<and>
    (\<forall>x\<in>set pre. \<not> startswith (strip x) ''readyok'') \<and> startswith (strip l) ''readyok'' \<longrightarrow>
      is_ready s =
        Some (Inr True,
              s\<lparr>process := (process s)\<lparr>stdout_pending := rest\<rparr>,
                trace := trace s @ [Acquired, Sent ''isready'', Released]\<rparr>)) \<and>
   (is_ready_flag s \<and> \<not> lock_held s \<and> has_writer s \<and> \<not> exited (process s) \<and>
    \<not> has_reader s \<longrightarrow>
      is_ready s =
        Some (Inl RuntimeError,
              s\<lparr>trace := trace s @ [Acquired, Sent ''isready'', Released]\<rparr>)) \<and>
   (is_ready_flag s \<and> \<not> lock_held s \<and> has_writer s \<and> \<not> exited (process s) \<and> has_reader s \<and>
    stdout_pending (process s) = map Text pre @ Undecodable # rest \<and>
    (\<forall>x\<in>set pre. \<not> startswith (strip x) ''readyok'') \<longrightarrow>
      is_ready s =
        Some (Inl UnicodeDecodeError,
              s\<lparr>process := (process s)\<lparr>stdout_pending := rest\<rparr>,
                trace := trace s @ [Acquired, Sent ''isready'', Released]\<rparr>)) \<and>
   (is_ready_flag s \<and> \<not> lock_held s \<and> has_writer s \<and> \<not> exited (process s) \<and> has_reader s \<and>
    stdout_pending (process s) = map Text pre \<and>
    (\<forall>x\<in>set pre. \<not> startswith (strip x) ''readyok'') \<longrightarrow>
      is_ready s = None) \<and>
   (is_ready_flag s \<longrightarrow> is_ready s \<noteq> Some (Inr False, s'))"
proof (intro conjI impI)
  assume "\<not> is_ready_flag s"
  then show "is_ready s = Some (Inr False, s)" by (simp add: is_ready_def)
next
  assume a: "is_ready_flag s \<and> \<not> lock_held s \<and> (\<not> has_writer s \<or> exited (process s))"
  let ?s1 = "s\<lparr>lock_held := True, trace := trace s @ [Acquired]\<rparr>"
  from a have "send_command ''isready'' ?s1 =
      (Inl (if \<not> has_writer s then RuntimeError else ConnectionResetError), ?s1)"
    using send_command_fails [of ?s1 "''isready''"] by simp
  with a show "is_ready s =
        Some (Inl (if \<not> has_writer s then RuntimeError else ConnectionResetError),
              s\<lparr>trace := trace s @ [Acquired, Released]\<rparr>)"
    by (simp add: is_ready_def with_lock_def and_then_def)
next
  assume a: "is_ready_flag s \<and> \<not> lock_held s \<and> has_writer s \<and> \<not> exited (process s) \<and> has_reader s \<and>
    stdout_pending (process s) = map Text pre @ Text l # rest \<and>
    (\<forall>x\<in>set pre. \<not> startswith (strip x) ''readyok'') \<and> startswith (strip l) ''readyok''"
  let ?s1 = "s\<lparr>lock_held := True, trace := trace s @ [Acquired]\<rparr>"
  let ?s2 = "?s1\<lparr>trace := trace ?s1 @ [Sent ''isready'']\<rparr>"
  from a have snd: "send_command ''isready'' ?s1 = (Inr (), ?s2)"
    using send_command_ok [of ?s1 "''isready''"] by simp
  from a have "wait_loop ''readyok'' [] ?s2 =
      Some (Inr ([] @ map strip pre @ [strip l]), ?s2\<lparr>process := (process ?s2)\<lparr>stdout_pending := rest\<rparr>\<rparr>)"
    by (intro wait_loop_found) simp_all
  with a snd show "is_ready s =
        Some (Inr True,
              s\<lparr>process := (process s)\<lparr>stdout_pending := rest\<rparr>,
                trace := trace s @ [Acquired, Sent ''isready'', Released]\<rparr>)"
    by (simp add: is_ready_def with_lock_def and_then_def and_then_opt_def wait_for_def)
next
  assume a: "is_ready_flag s \<and> \<not> lock_held s \<and> has_writer s \<and> \<not> exited (process s) \<and>
    \<not> has_reader s"
  let ?s1 = "s\<lparr>lock_held := True, trace := trace s @ [Acquired]\<rparr>"
  let ?s2 = "?s1\<lparr>trace := trace ?s1 @ [Sent ''isready'']\<rparr>"
  from a have snd: "send_command ''isready'' ?s1 = (Inr (), ?s2)"
    using send_command_ok [of ?s1 "''isready''"] by simp
  from a have "wait_loop ''readyok'' [] ?s2 = Some (Inl RuntimeError, ?s2)"
    by (intro wait_loop_no_reader) simp
  with a snd show "is_ready s =
        Some (Inl RuntimeError,
              s\<lparr>trace := trace s @ [Acquired, Sent ''isready'', Released]\<rparr>)"
    by (simp add: is_ready_def with_lock_def and_then_def and_then_opt_def wait_for_def)
next
  assume a: "is_ready_flag s \<and> \<not> lock_held s \<and> has_writer s \<and> \<not> exited (process s) \<and> has_reader s \<and>
    stdout_pending (process s) = map Text pre @ Undecodable # rest \<and>
    (\<forall>x\<in>set pre. \<not> startswith (strip x) ''readyok'')"
  let ?s1 = "s\<lparr>lock_held := True, trace := trace s @ [Acquired]\<rparr>"
  let ?s2 = "?s1\<lparr>trace := trace ?s1 @ [Sent ''isready'']\<rparr>"
  from a have snd: "send_command ''isready'' ?s1 = (Inr (), ?s2)"
    using send_command_ok [of ?s1 "''isready''"] by simp
  from a have "wait_loop ''readyok'' [] ?s2 =
      Some (Inl UnicodeDecodeError, ?s2\<lparr>process := (process ?s2)\<lparr>stdout_pending := rest\<rparr>\<rparr>)"
    using wait_loop_undecodable [of ?s2 pre rest "''readyok''" "[]"] by simp
  with a snd show "is_ready s =
        Some (Inl UnicodeDecodeError,
              s\<lparr>process := (process s)\<lparr>stdout_pending := rest\<rparr>,
                trace := trace s @ [Acquired, Sent ''isready'', Released]\<rparr>)"
    by (simp add: is_ready_def with_lock_def and_then_def and_then_opt_def wait_for_def)
next
  assume a: "is_ready_flag s \<and> \<not> lock_held s \<and> has_writer s \<and> \<not> exited (process s) \<and> has_reader s \<and>
    stdout_pending (process s) = map Text pre \<and>
    (\<forall>x\<in>set pre. \<not> startswith (strip x) ''readyok'')"
  let ?s1 = "s\<lparr>lock_held := True, trace := trace s @ [Acquired]\<rparr>"
  let ?s2 = "?s1\<lparr>trace := trace ?s1 @ [Sent ''isready'']\<rparr>"
  from a have snd: "send_command ''isready'' ?s1 = (Inr (), ?s2)"
    using send_command_ok [of ?s1 "''isready''"] by simp
  from a have "silent ''readyok'' ?s2" unfolding silent_def by auto
  then have "wait_loop ''readyok'' [] ?s2 = None" by (rule wait_loop_never)
  with a snd show "is_ready s = None"
    by (simp add: is_ready_def with_lock_def and_then_def and_then_opt_def wait_for_def)
next
  assume "is_ready_flag s"
  then show "is_ready s \<noteq> Some (Inr False, s')"
    by (auto simp add: is_ready_def with_lock_def and_then_def and_then_opt_def
          split: if_splits option.splits prod.splits sum.splits)
qed

text \<open>
  A wrapper that was never started; one whose engine has exited; engines that answer,
  that answer with bytes that do not decode, and that never answer; and a wrapper
  without a reader.
\<close>

theorem is_ready_outcomes_witness:
  "is_ready fresh_wrapper = Some (Inr False, fresh_wrapper) \<and>
   is_ready crashed_wrapper =
     Some (Inl ConnectionResetError, crashed_wrapper\<lparr>trace := [Acquired, Released]\<rparr>) \<and>
   is_ready (started_wrapper [Text ''readyok'']) =
     Some (Inr True, (started_wrapper [])\<lparr>trace := [Acquired, Sent ''isready'', Released]\<rparr>) \<and>
   is_ready (started_wrapper [Text ''readyok'']) \<noteq> Some (Inr False, started_wrapper []) \<and>
   is_ready ((started_wrapper [])\<lparr>has_reader := False\<rparr>) =
     Some (Inl RuntimeError,
           (started_wrapper [])\<lparr>has_reader := False,
                                 trace := [Acquired, Sent ''isready'', Released]\<rparr>) \<and>
   is_ready (started_wrapper [Text ''info string hello'', Undecodable, Text ''readyok'']) =
     Some (Inl UnicodeDecodeError,
           (started_wrapper [Text ''readyok''])
             \<lparr>trace := [Acquired, Sent ''isready'', Released]\<rparr>) \<and>
   is_ready (started_wrapper [Text ''info string hello'']) = None"
  using
    is_ready_outcomes [of fresh_wrapper "[]" "''x''" "[]" fresh_wrapper]
    is_ready_outcomes [of crashed_wrapper "[]" "''x''" "[]" crashed_wrapper]
    is_ready_outcomes [of "started_wrapper [Text ''readyok'']" "[]" "''readyok''" "[]" "started_wrapper []"]
    is_ready_outcomes [of "(started_wrapper [])\<lparr>has_reader := False\<rparr>" "[]" "''x''" "[]" fresh_wrapper]
    is_ready_outcomes
      [of "started_wrapper [Text ''info string hello'', Undecodable, Text ''readyok'']"
          "[''info string hello'']" "''x''" "[Text ''readyok'']" fresh_wrapper]
    is_ready_outcomes
      [of "started_wrapper [Text ''info string hello'']" "[''info string hello'']" "''x''" "[]"
          fresh_wrapper]
  by (simp add: text_eval fresh_wrapper_def crashed_wrapper_def)

text \<open>
  The claim as stated fails: on a started wrapper whose subprocess has exited,
  \<open>is_ready\<close> raises instead of returning false.
\<close>

theorem is_ready_raises:
  "is_ready crashed_wrapper =
     Some (Inl ConnectionResetError, crashed_wrapper\<lparr>trace := [Acquired, Released]\<rparr>)"
  by (simp add: is_ready_def with_lock_def and_then_def send_command_def
        crashed_wrapper_def started_wrapper_def)

text \<open>
  C6 (as amended). Without a process handle \<open>stop\<close> does nothing. With a handle and
  an engine that accepts the write, \<open>stop\<close> sends \<open>quit\<close>, kills the process
  when it has not exited within the grace period, clears the three handles and the
  readiness flag, and a second \<open>stop\<close> right after does nothing. When the write of
  \<open>quit\<close> fails, \<open>stop\<close> raises and leaves the handles and the flag as they were.
\<close>

theorem stop_outcomes:
  "(\<not> has_process s \<longrightarrow> stop s = (Inr (), s)) \<and>
   (has_process s \<and> has_writer s \<and> \<not> exited (process s) \<longrightarrow>
      fst (stop s) = Inr () \<and>
      \<not> has_process (snd (stop s)) \<and> \<not> has_reader (snd (stop s)) \<and>
      \<not> has_writer (snd (stop s)) \<and> \<not> is_ready_flag (snd (stop s)) \<and>
      exited (process (snd (stop s))) \<and>
      trace (snd (stop s)) =
        trace s @ (if quits_in_time (process s) then [Sent ''quit''] else [Sent ''quit'', Killed]) \<and>
      stop (snd (stop s)) = (Inr (), snd (stop s))) \<and>
   (has_process s \<and> (\<not> has_writer s \<or> exited (process s)) \<longrightarrow>
      stop s = (Inl (if \<not> has_writer s then RuntimeError else ConnectionResetError), s))"
  by (auto simp add: stop_def send_command_def Let_def)

text \<open>No process; an engine that quits; an engine that has to be killed; an engine that has exited.\<close>

theorem stop_outcomes_witness:
  "stop fresh_wrapper = (Inr (), fresh_wrapper) \<and>
   fst (stop (started_wrapper [])) = Inr () \<and>
   \<not> has_process (snd (stop (started_wrapper []))) \<and>
   \<not> is_ready_flag (snd (stop (started_wrapper []))) \<and>
   trace (snd (stop (started_wrapper []))) = [Sent ''quit''] \<and>
   stop (snd (stop (started_wrapper []))) = (Inr (), snd (stop (started_wrapper []))) \<and>
   trace (snd (stop stubborn_wrapper)) = [Sent ''quit'', Killed] \<and>
   \<not> has_process (snd (stop stubborn_wrapper)) \<and>
   stop crashed_wrapper = (Inl ConnectionResetError, crashed_wrapper)"
  using stop_outcomes [of fresh_wrapper] stop_outcomes [of "started_wrapper []"]
    stop_outcomes [of stubborn_wrapper] stop_outcomes [of crashed_wrapper]
  by (simp add: fresh_wrapper_def crashed_wrapper_def stubborn_wrapper_def started_wrapper_def)

text \<open>
  The claim as stated fails: on a started wrapper whose subprocess has exited,
  \<open>stop\<close> raises, and the process handle and the readiness flag stay set.
\<close>

theorem stop_raises:
  "stop crashed_wrapper = (Inl ConnectionResetError, crashed_wrapper) \<and>
   has_process crashed_wrapper \<and> is_ready_flag crashed_wrapper"
  by (simp add: stop_def send_command_def crashed_wrapper_def started_wrapper_def)


section \<open>\<open>analyze_position\<close> with another number of candidates\<close>

text \<open>
  C4 (as amended). On a ready wrapper, with \<open>num_moves\<close> different from
  \<open>config.multipv\<close>, \<open>analyze_position\<close> sets MultiPV to \<open>num_moves\<close>
  before the search. Once the \<open>bestmove\<close> line is read it sets MultiPV back to the
  configured value, before the output is parsed (hence also when the parser raises).
  When the read of the output raises, the error leaves the call and no command
  restores MultiPV.
\<close>

theorem multipv_restored_after_read:
  assumes "is_ready_flag s" and "\<not> lock_held s" and "has_writer s" and "has_reader s"
    and "\<not> exited (process s)" and "n \<noteq> config_multipv s"
    and "\<forall>x\<in>set pre. \<not> startswith (strip x) ''bestmove''"
  shows
    "(stdout_pending (process s) = map Text pre @ Text l # rest \<and>
      startswith (strip l) ''bestmove'' \<longrightarrow>
        analyze_position ext fen_v nodes_v depth_v time_v (Some n) s =
          Some (parse_analysis ext fen_v (filter info_pv_line (map strip pre)) (strip l),
                s\<lparr>process := (process s)\<lparr>stdout_pending := rest\<rparr>,
                  trace := trace s @
                    [Acquired,
                     Sent (''setoption name MultiPV value '' @ str_int n),
                     Sent (''position fen '' @ fen_v),
                     Sent (go_command nodes_v depth_v time_v),
                     Sent (''setoption name MultiPV value '' @ str_int (config_multipv s)),
                     Released]\<rparr>)) \<and>
     (stdout_pending (process s) = map Text pre @ Undecodable # rest \<longrightarrow>
        analyze_position ext fen_v nodes_v depth_v time_v (Some n) s =
          Some (Inl UnicodeDecodeError,
                s\<lparr>process := (process s)\<lparr>stdout_pending := rest\<rparr>,
                  trace := trace s @
                    [Acquired,
                     Sent (''setoption name MultiPV value '' @ str_int n),
                     Sent (''position fen '' @ fen_v),
                     Sent (go_command nodes_v depth_v time_v),
                     Released]\<rparr>))"
proof (intro conjI impI)
  let ?t3 = "trace s @ [Acquired, Sent (''setoption name MultiPV value '' @ str_int n),
                     Sent (''position fen '' @ fen_v), Sent (go_command nodes_v depth_v time_v)]"
  let ?s3 = "s\<lparr>lock_held := True, trace := ?t3\<rparr>"
  {
    assume a: "stdout_pending (process s) = map Text pre @ Text l # rest \<and>
      startswith (strip l) ''bestmove''"
    from assms a have "bestmove_loop [] ?s3 =
        Some (Inr ([] @ filter info_pv_line (map strip pre), strip l),
              ?s3\<lparr>process := (process ?s3)\<lparr>stdout_pending := rest\<rparr>\<rparr>)"
      by (intro bestmove_loop_found) simp_all
    with assms show "analyze_position ext fen_v nodes_v depth_v time_v (Some n) s =
          Some (parse_analysis ext fen_v (filter info_pv_line (map strip pre)) (strip l),
                s\<lparr>process := (process s)\<lparr>stdout_pending := rest\<rparr>,
                  trace := trace s @
                    [Acquired,
                     Sent (''setoption name MultiPV value '' @ str_int n),
                     Sent (''position fen '' @ fen_v),
                     Sent (go_command nodes_v depth_v time_v),
                     Sent (''setoption name MultiPV value '' @ str_int (config_multipv s)),
                     Released]\<rparr>)"
      by (simp add: analyze_position_def with_lock_def and_then_def and_then_opt_def
            set_multipv_def restore_multipv_def multipv_differs_def send_command_def
            read_until_bestmove_def)
  }
  {
    assume a: "stdout_pending (process s) = map Text pre @ Undecodable # rest"
    from assms a have "bestmove_loop [] ?s3 =
        Some (Inl UnicodeDecodeError, ?s3\<lparr>process := (process ?s3)\<lparr>stdout_pending := rest\<rparr>\<rparr>)"
      by (intro bestmove_loop_undecodable) simp_all
    with assms show "analyze_position ext fen_v nodes_v depth_v time_v (Some n) s =
          Some (Inl UnicodeDecodeError,
                s\<lparr>process := (process s)\<lparr>stdout_pending := rest\<rparr>,
                  trace := trace s @
                    [Acquired,
                     Sent (''setoption name MultiPV value '' @ str_int n),
                     Sent (''position fen '' @ fen_v),
                     Sent (go_command nodes_v depth_v time_v),
                     Released]\<rparr>)"
      by (simp add: analyze_position_def with_lock_def and_then_def and_then_opt_def
            set_multipv_def restore_multipv_def multipv_differs_def send_command_def
            read_until_bestmove_def)
  }
qed

text \<open>Three candidates asked of a wrapper configured for ten: a search that ends, and one whose output cannot be decoded.\<close>

theorem multipv_restored_after_read_witness:
  "analyze_position example_ext start_fen None (Some 20) None (Some 3) (started_wrapper search_output) =
     Some (parse_analysis example_ext start_fen
             [''info depth 10 multipv 1 score cp 35 nodes 50000 time 120 nps 400000 pv e2e4 e7e5'']
             ''bestmove e2e4'',
           (started_wrapper [])
             \<lparr>trace := [Acquired, Sent ''setoption name MultiPV value 3'',
                        Sent (''position fen '' @ start_fen), Sent ''go depth 20'',
                        Sent ''setoption name MultiPV value 10'', Released]\<rparr>) \<and>
   analyze_position example_ext start_fen None (Some 20) None (Some 3)
       (started_wrapper [Text ''info string NNUE evaluation'', Undecodable]) =
     Some (Inl UnicodeDecodeError,
           (started_wrapper [])
             \<lparr>trace := [Acquired, Sent ''setoption name MultiPV value 3'',
                        Sent (''position fen '' @ start_fen), Sent ''go depth 20'', Released]\<rparr>)"
  using
    multipv_restored_after_read
      [of "started_wrapper search_output" 3
          "[''info depth 10 multipv 1 score cp 35 nodes 50000 time 120 nps 400000 pv e2e4 e7e5'']"
          "''bestmove e2e4''" "[]" example_ext start_fen None "Some 20" None]
    multipv_restored_after_read
      [of "started_wrapper [Text ''info string NNUE evaluation'', Undecodable]" 3
          "[''info string NNUE evaluation'']" "''x''" "[]" example_ext start_fen None "Some 20" None]
  by (simp add: text_eval search_output_def go_command_def str_int_def)

text \<open>
  The claim as stated fails: the engine answers the search with bytes that are no
  UTF-8; the call raises, and the last command sent is \<open>go\<close>.
\<close>

theorem multipv_not_restored_on_error:
  "analyze_position example_ext start_fen None (Some 20) None (Some 3)
       (started_wrapper [Undecodable]) =
     Some (Inl UnicodeDecodeError,
           (started_wrapper [])
             \<lparr>trace := [Acquired, Sent ''setoption name MultiPV value 3'',
                        Sent (''position fen '' @ start_fen), Sent ''go depth 20'', Released]\<rparr>)"
  by code_simp

section \<open>Properties of \<open>analyze_position\<close> on a wrapper that is not ready\<close>

text \<open>
  C10. When \<open>_is_ready\<close> is false (the wrapper was never started with success, or was
  stopped), \<open>analyze_position\<close> raises \<open>RuntimeError\<close> inside the lock: the lock
  is acquired and released, no command is sent, and every field of the wrapper and the
  subprocess is as before. The lock is free when the call is made.
\<close>

theorem analyze_position_not_ready:
  assumes "\<not> is_ready_flag s" and "\<not> lock_held s"
  shows "analyze_position ext fen_v nodes_v depth_v time_v num_moves s =
           Some (Inl RuntimeError, s\<lparr>trace := trace s @ [Acquired, Released]\<rparr>)"
  using assms by (simp add: analyze_position_def with_lock_def)

theorem analyze_position_not_ready_witness:
  "\<not> is_ready_flag fresh_wrapper \<and> \<not> lock_held fresh_wrapper \<and>
   analyze_position example_ext start_fen None (Some 20) None (Some 3) fresh_wrapper =
     Some (Inl RuntimeError, fresh_wrapper\<lparr>trace := [Acquired, Released]\<rparr>) \<and>
   \<not> is_ready_flag (snd (stop (started_wrapper []))) \<and>
   analyze_position example_ext start_fen None (Some 20) None (Some 3)
       (snd (stop (started_wrapper []))) =
     Some (Inl RuntimeError,
           (snd (stop (started_wrapper [])))\<lparr>trace := [Sent ''quit'', Acquired, Released]\<rparr>)"
  using
    analyze_position_not_ready
      [of fresh_wrapper example_ext start_fen None "Some 20" None "Some 3"]
    analyze_position_not_ready
      [of "snd (stop (started_wrapper []))" example_ext start_fen None "Some 20" None "Some 3"]
  by (simp add: fresh_wrapper_def started_wrapper_def stop_def send_command_def)

end
